theory Spec2Isabelle
  imports Complex_Main "HOL-Library.Char_ord" "HOL-Library.List_Lexorder"
    "HOL-Library.Product_Lexorder" "HOL-Library.Multiset"
begin

section \<open>Tables\<close>

text \<open>
  The scripts of the pipeline exchange CSV files and work on them as pandas data frames.
  A cell is a number, a text or missing (pandas' NaN/None); Python floats are read as
  real numbers. A row maps column names to cells, a frame is the list of its column
  names together with its rows, in order. Cells of columns a frame does not have
  are \<open>Null\<close>.
\<close>

datatype val = Null | Num real | Str string

type_synonym row = "string \<Rightarrow> val"

record frame =
  columns :: "string list"
  rows :: "row list"

definition col_vals :: "frame \<Rightarrow> string \<Rightarrow> val list" where
  "col_vals df c = map (\<lambda>r. r c) (rows df)"

definition nums :: "val list \<Rightarrow> real list" where
  "nums vs = concat (map (\<lambda>v. case v of Num x \<Rightarrow> [x] | _ \<Rightarrow> []) vs)"

text \<open>\<open>Series.max()\<close> and \<open>Series.min()\<close> skip missing cells and give NaN (here
  \<open>None\<close>) when nothing is left.\<close>

definition series_max :: "val list \<Rightarrow> real option" where
  "series_max vs = (case nums vs of [] \<Rightarrow> None | x # xs \<Rightarrow> Some (fold max xs x))"

definition series_min :: "val list \<Rightarrow> real option" where
  "series_min vs = (case nums vs of [] \<Rightarrow> None | x # xs \<Rightarrow> Some (fold min xs x))"

definition assign :: "frame \<Rightarrow> string \<Rightarrow> val list \<Rightarrow> frame" where
  \<comment> \<open>\<open>df[c] = vs\<close>: overwrite the column, or append it when the frame has none of that name\<close>
  "assign df c vs =
     \<lparr>columns = (if c \<in> set (columns df) then columns df else columns df @ [c]),
      rows = map (\<lambda>(r, v). r(c := v)) (zip (rows df) vs)\<rparr>"

definition has_columns :: "frame \<Rightarrow> string list \<Rightarrow> bool" where
  \<comment> \<open>reading a column the frame does not have raises \<open>KeyError\<close>\<close>
  "has_columns df cs = list_all (\<lambda>c. c \<in> set (columns df)) cs"

definition mk_row :: "(string \<times> val) list \<Rightarrow> row" where
  \<comment> \<open>the row of a CSV line, from its (column, cell) pairs\<close>
  "mk_row kvs = (\<lambda>c. case map_of kvs c of Some v \<Rightarrow> v | None \<Rightarrow> Null)"

text \<open>
  Ordering of cells for \<open>sort_values\<close> and for the group keys of \<open>groupby\<close>: ascending,
  missing cells last. A column holds numbers or texts, not both (pandas refuses to compare
  a number with a text).
\<close>

definition sort_rank :: "val \<Rightarrow> nat \<times> real \<times> string" where
  "sort_rank v = (case v of Num x \<Rightarrow> (0, x, []) | Str s \<Rightarrow> (0, 0, s) | Null \<Rightarrow> (1, 0, []))"

definition sort_values :: "string list \<Rightarrow> frame \<Rightarrow> frame" where
  \<comment> \<open>\<open>df.sort_values(by)\<close> on several columns is a stable lexicographic sort\<close>
  "sort_values by df = df\<lparr>rows := sort_key (\<lambda>r. map (\<lambda>c. sort_rank (r c)) by) (rows df)\<rparr>"

datatype error = KeyError | NameError | AssertionError | ZeroDivisionError | ValueError

text \<open>A comparison of floats in which one side is NaN is false.\<close>

definition nan_less :: "real option \<Rightarrow> real option \<Rightarrow> bool" where
  "nan_less a b = (case (a, b) of (Some x, Some y) \<Rightarrow> x < y | _ \<Rightarrow> False)"

section \<open>Time-based splitter (scripts/train\_test\_split.py)\<close>

text \<open>\<open>df['year'] < split_year\<close> and \<open>df['year'] >= split_year\<close>, row by row; a
  missing year satisfies neither. The year column of a panel holds numbers.\<close>

definition year_lt :: "real \<Rightarrow> row \<Rightarrow> bool" where
  "year_lt split_year r = (case r ''year'' of Num y \<Rightarrow> y < split_year | _ \<Rightarrow> False)"

definition year_ge :: "real \<Rightarrow> row \<Rightarrow> bool" where
  "year_ge split_year r = (case r ''year'' of Num y \<Rightarrow> split_year \<le> y | _ \<Rightarrow> False)"

definition split_train :: "frame \<Rightarrow> real \<Rightarrow> frame" where
  "split_train df split_year = df\<lparr>rows := filter (year_lt split_year) (rows df)\<rparr>"

definition split_test :: "frame \<Rightarrow> real \<Rightarrow> frame" where
  "split_test df split_year = df\<lparr>rows := filter (year_ge split_year) (rows df)\<rparr>"

text \<open>The asserted expression \<open>train['year'].max() < test['year'].min()\<close>.\<close>

definition no_leakage :: "frame \<Rightarrow> frame \<Rightarrow> bool" where
  "no_leakage train test =
     nan_less (series_max (col_vals train ''year'')) (series_min (col_vals test ''year''))"

text \<open>
  The script. \<open>wb\<close> is the content of worldbank\_data.csv and \<open>clean\<close> that of
  clean\_panel.csv, \<open>None\<close> when the file does not exist. The result lists the split
  files written, in order, and how the script ended. \<open>split_year = 2020\<close> is assigned
  inside the branch of the first file, so without that file the second split and the
  report stop on an unbound name; the report needs \<open>df\<close> of the first branch too.
  The percentages printed before the assertion divide by \<open>len(df)\<close>.
\<close>

definition split_year :: real where
  "split_year = 2020"

definition train_test_split ::
  "frame option \<Rightarrow> frame option \<Rightarrow> (string \<times> frame) list \<times> error option" where
  "train_test_split wb clean =
     (case wb of
        None \<Rightarrow> ([], Some NameError)
      | Some df \<Rightarrow>
          if \<not> has_columns df [''year'', ''country''] then ([], Some KeyError)
          else if rows df = [] then ([], Some ZeroDivisionError)
          else
            let train = split_train df split_year; test = split_test df split_year in
            if \<not> no_leakage train test then ([], Some AssertionError)
            else
              let saved = [(''worldbank_train.csv'', train), (''worldbank_test.csv'', test)] in
              (case clean of
                 None \<Rightarrow> (saved, None)
               | Some df_clean \<Rightarrow>
                   if \<not> has_columns df_clean [''year''] then (saved, Some KeyError)
                   else
                     let train_clean = split_train df_clean split_year;
                         test_clean = split_test df_clean split_year
                     in (saved @ [(''clean_panel_train.csv'', train_clean),
                                  (''clean_panel_test.csv'', test_clean)], None)))"

section \<open>Panel balancer (scripts/panel\_balance.py)\<close>

text \<open>
  \<open>df.groupby('country')['year'].count()\<close>: one entry per country of the frame
  (rows without a country form no group), holding the number of its rows whose
  \<open>year\<close> cell is not missing, then sorted by that number, largest first (countries
  with equal numbers stay in the order of their names).
\<close>

definition group_keys :: "val list \<Rightarrow> val list" where
  "group_keys vs = sort_key sort_rank (remdups (filter (\<lambda>v. v \<noteq> Null) vs))"

definition count_years :: "frame \<Rightarrow> val \<Rightarrow> nat" where
  "count_years df c =
     length (filter (\<lambda>r. r ''country'' = c \<and> r ''year'' \<noteq> Null) (rows df))"

definition country_counts :: "frame \<Rightarrow> (val \<times> nat) list" where
  "country_counts df =
     sort_key (\<lambda>(c, n). - int n)
       (map (\<lambda>c. (c, count_years df c)) (group_keys (col_vals df ''country'')))"

definition valid_countries :: "frame \<Rightarrow> nat \<Rightarrow> val list" where
  "valid_countries df min_years =
     map fst (filter (\<lambda>(c, n). min_years \<le> n) (country_counts df))"

definition filtered_countries :: "frame \<Rightarrow> nat \<Rightarrow> val list" where
  "filtered_countries df min_years =
     map fst (filter (\<lambda>(c, n). n < min_years) (country_counts df))"

definition df_filtered :: "frame \<Rightarrow> nat \<Rightarrow> frame" where
  \<comment> \<open>\<open>df[df['country'].isin(valid_countries)]\<close>\<close>
  "df_filtered df min_years =
     df\<lparr>rows := filter (\<lambda>r. r ''country'' \<in> set (valid_countries df min_years)) (rows df)\<rparr>"

definition row_count :: "frame \<Rightarrow> val \<Rightarrow> nat" where
  \<comment> \<open>the number of rows of a country, whatever their cells hold\<close>
  "row_count df c = length (filter (\<lambda>r. r ''country'' = c) (rows df))"

text \<open>The script keeps countries with at least \<open>min_years = 10\<close> years and writes the
  filtered frame back over worldbank\_data.csv; the result is the new content of that
  file.\<close>

definition min_years :: nat where
  "min_years = 10"

definition panel_balance :: "frame \<Rightarrow> error + frame" where
  "panel_balance df =
     (if \<not> has_columns df [''country'', ''year''] then Inl KeyError
      else Inr (df_filtered df min_years))"

section \<open>Outlier winsorizer (src/preprocessing/outlier\_winsorization.py)\<close>

text \<open>
  A column read from a CSV file has a numeric dtype when none of its cells is a text.
\<close>

definition is_numeric :: "val list \<Rightarrow> bool" where
  "is_numeric vs = list_all (\<lambda>v. case v of Str _ \<Rightarrow> False | _ \<Rightarrow> True) vs"

definition mean :: "real list \<Rightarrow> real" where
  "mean xs = sum_list xs / real (length xs)"

definition variance :: "real list \<Rightarrow> real" where
  "variance xs = sum_list (map (\<lambda>x. (x - mean xs)\<^sup>2) xs) / real (length xs - 1)"

definition std :: "real list \<Rightarrow> real option" where
  \<comment> \<open>\<open>Series.std()\<close> of the present values: the sample deviation, NaN below two values\<close>
  "std xs = (if length xs < 2 then None else Some (sqrt (variance xs)))"

definition lerp_at :: "real list \<Rightarrow> real \<Rightarrow> real" where
  \<comment> \<open>linear interpolation at the fractional position \<open>h\<close> of a sorted list\<close>
  "lerp_at s h =
     (let j = nat \<lfloor>h\<rfloor>; g = h - real j
      in s ! j + g * (s ! min (j + 1) (length s - 1) - s ! j))"

definition quantile :: "real \<Rightarrow> real list \<Rightarrow> real option" where
  \<comment> \<open>\<open>Series.quantile(q)\<close> of the present values, with linear interpolation between
      the two nearest order statistics; NaN when there is none\<close>
  "quantile q xs =
     (if xs = [] then None else Some (lerp_at (sort xs) (q * real (length xs - 1))))"

definition cap_at :: "real \<Rightarrow> val \<Rightarrow> val" where
  \<comment> \<open>\<open>np.where(x > p, p, x)\<close>; the comparison is false on a missing cell\<close>
  "cap_at p v = (case v of Num x \<Rightarrow> if x > p then Num p else v | _ \<Rightarrow> v)"

definition floor_at :: "real \<Rightarrow> val \<Rightarrow> val" where
  "floor_at p v = (case v of Num x \<Rightarrow> if x < p then Num p else v | _ \<Rightarrow> v)"

definition winsorize_col :: "val list \<Rightarrow> val list" where
  "winsorize_col vs =
     (let xs = nums vs in
      case std xs of
        None \<Rightarrow> vs
      | Some sd \<Rightarrow>
          if 0 < sd then
            (case (quantile (99 / 100) xs, quantile (1 / 100) xs) of
               (Some percentile_99, Some percentile_01) \<Rightarrow>
                 let outliers_upper = length (filter (\<lambda>x. x > percentile_99) xs);
                     outliers_lower = length (filter (\<lambda>x. x < percentile_01) xs)
                 in if outliers_upper > 0 \<or> outliers_lower > 0
                    then map (floor_at percentile_01) (map (cap_at percentile_99) vs)
                    else vs
             | _ \<Rightarrow> vs)
          else vs)"

definition exclude_cols :: "string list" where
  "exclude_cols = [''year'', ''time_idx'', ''index'', ''id'']"

definition numeric_cols :: "frame \<Rightarrow> string list" where
  "numeric_cols df =
     filter (\<lambda>c. c \<notin> set exclude_cols)
       (filter (\<lambda>c. is_numeric (col_vals df c)) (columns df))"

definition winsorize :: "frame \<Rightarrow> frame" where
  \<comment> \<open>the loop over the numeric columns of one file; the result is written back\<close>
  "winsorize df =
     fold (\<lambda>c d. assign d c (winsorize_col (col_vals d c))) (numeric_cols df) df"

section \<open>Missing-value handler (src/preprocessing/handle\_missing\_values.py)\<close>

definition lower_char :: "char \<Rightarrow> char" where
  "lower_char c =
     (case map_of (zip ''ABCDEFGHIJKLMNOPQRSTUVWXYZ'' ''abcdefghijklmnopqrstuvwxyz'') c of
        Some d \<Rightarrow> d | None \<Rightarrow> c)"

definition lower :: "string \<Rightarrow> string" where
  "lower s = map lower_char s"

fun starts_with :: "string \<Rightarrow> string \<Rightarrow> bool" where
  "starts_with s [] = True"
| "starts_with [] (t # ts) = False"
| "starts_with (c # s) (t # ts) = (c = t \<and> starts_with s ts)"

fun contains :: "string \<Rightarrow> string \<Rightarrow> bool" where
  \<comment> \<open>\<open>term in s\<close>\<close>
  "contains [] t = (t = [])"
| "contains (c # s) t = (starts_with (c # s) t \<or> contains s t)"

definition time_invariant_vars :: "string list" where
  "time_invariant_vars = [''country'']"

definition smooth_trend_vars :: "string list" where
  "smooth_trend_vars = [''gdp_per_capita'', ''gdp_current_usd'', ''population'', ''gdp_growth'']"

definition sparse_vars :: "string list" where
  "sparse_vars = [''modal_share_public'', ''transit_investment_gdp'', ''rail_km_built'',
     ''fleet_size'']"

fun ffill_from :: "val \<Rightarrow> val list \<Rightarrow> val list" where
  "ffill_from seen [] = []"
| "ffill_from seen (v # vs) =
     (if v = Null then seen # ffill_from seen vs else v # ffill_from v vs)"

definition ffill :: "val list \<Rightarrow> val list" where
  \<comment> \<open>\<open>fillna(method='ffill')\<close>: a missing cell takes the last present value before it\<close>
  "ffill vs = ffill_from Null vs"

definition bfill :: "val list \<Rightarrow> val list" where
  \<comment> \<open>\<open>fillna(method='bfill')\<close>: a missing cell takes the next present value\<close>
  "bfill vs = rev (ffill_from Null (rev vs))"

text \<open>
  Linear interpolation of a numeric series over equally spaced positions. \<open>interp_go a k\<close>
  runs behind the present value \<open>a\<close> with \<open>k\<close> missing cells pending: the next present
  value \<open>b\<close> closes the gap with \<open>k\<close> equal steps from \<open>a\<close> to \<open>b\<close>, and a gap that
  reaches the end repeats \<open>a\<close>. With \<open>limit_direction='both'\<close> the cells before the
  first present value take that value; in the default direction they stay missing.
  pandas interpolates numeric series; a series holding text is left as it is.
\<close>

fun interp_go :: "real \<Rightarrow> nat \<Rightarrow> val list \<Rightarrow> val list" where
  "interp_go a k [] = replicate k (Num a)"
| "interp_go a k (Num b # vs) =
     map (\<lambda>i. Num (a + (b - a) * real (Suc i) / real (Suc k))) [0..<k] @
     Num b # interp_go b 0 vs"
| "interp_go a k (v # vs) = interp_go a (Suc k) vs"

definition interpolate_both :: "val list \<Rightarrow> val list" where
  "interpolate_both vs =
     (if \<not> is_numeric vs then vs
      else case dropWhile (\<lambda>v. v = Null) vs of
             Num a # rest \<Rightarrow>
               replicate (length (takeWhile (\<lambda>v. v = Null) vs)) (Num a) @
               Num a # interp_go a 0 rest
           | _ \<Rightarrow> vs)"

definition interpolate_forward :: "val list \<Rightarrow> val list" where
  "interpolate_forward vs =
     (if \<not> is_numeric vs then vs
      else case dropWhile (\<lambda>v. v = Null) vs of
             Num a # rest \<Rightarrow> takeWhile (\<lambda>v. v = Null) vs @ Num a # interp_go a 0 rest
           | _ \<Rightarrow> vs)"

text \<open>
  \<open>df.groupby('country')[col].transform(f)\<close>: \<open>f\<close> is applied to the cells of each
  country, in row order, and every row receives the cell computed for its place in its
  group. Rows without a country belong to no group and receive a missing cell.
\<close>

definition group_transform :: "val list \<Rightarrow> (val list \<Rightarrow> val list) \<Rightarrow> val list \<Rightarrow> val list" where
  "group_transform keys f vs =
     map (\<lambda>i. if keys ! i = Null then Null
              else f (map (\<lambda>j. vs ! j) (filter (\<lambda>j. keys ! j = keys ! i) [0..<length vs])) !
                   length (filter (\<lambda>j. keys ! j = keys ! i) [0..<i]))
       [0..<length vs]"

definition name_has :: "string list \<Rightarrow> string \<Rightarrow> bool" where
  \<comment> \<open>\<open>any(term in col.lower() for term in terms)\<close>\<close>
  "name_has terms col = list_ex (\<lambda>t. contains (lower col) t) terms"

definition impute_column :: "string \<Rightarrow> frame \<Rightarrow> frame" where
  \<comment> \<open>the body of the loop over the columns of a table with country and year\<close>
  "impute_column col df =
     (if col \<in> set time_invariant_vars then df
      else if col \<in> set smooth_trend_vars \<or> name_has [''gdp'', ''population'', ''growth''] col
      then assign df col
             (group_transform (col_vals df ''country'') interpolate_both (col_vals df col))
      else if col \<in> set sparse_vars \<or> name_has [''modal'', ''transit'', ''rail'', ''fleet''] col
      then assign df col
             (group_transform (col_vals df ''country'') (\<lambda>x. bfill (ffill x)) (col_vals df col))
      else if is_numeric (col_vals df col)
      then assign df col
             (group_transform (col_vals df ''country'') interpolate_both (col_vals df col))
      else df)"

definition impute :: "frame \<Rightarrow> frame" where
  \<comment> \<open>the imputation before the residual fill: by country where the table has the
      columns country and year, else a forward fill of every column followed by an
      interpolation\<close>
  "impute df =
     (if has_columns df [''country'', ''year'']
      then let sorted_df = sort_values [''country'', ''year''] df
           in fold impute_column (columns sorted_df) sorted_df
      else fold (\<lambda>c d. assign d c (interpolate_forward (ffill (col_vals d c)))) (columns df) df)"

definition fillna_mean :: "val list \<Rightarrow> val list" where
  \<comment> \<open>\<open>df[col].fillna(df[col].mean())\<close>; the mean of a column without values is NaN and
      fills nothing\<close>
  "fillna_mean vs =
     (case nums vs of
        [] \<Rightarrow> vs
      | x # xs \<Rightarrow> map (\<lambda>v. if v = Null then Num (mean (x # xs)) else v) vs)"

definition fill_remaining :: "frame \<Rightarrow> frame" where
  \<comment> \<open>the loop over the numeric columns that fills what is still missing\<close>
  "fill_remaining df =
     fold (\<lambda>c d. if Null \<in> set (col_vals d c)
                then assign d c (fillna_mean (col_vals d c)) else d)
       (filter (\<lambda>c. is_numeric (col_vals df c)) (columns df)) df"

definition handle_missing_values :: "frame \<Rightarrow> frame" where
  \<comment> \<open>what the script writes back for one file\<close>
  "handle_missing_values df = fill_remaining (impute df)"

section \<open>Joins and aggregation\<close>

text \<open>
  \<open>left.merge(right, on=on, how='left', suffixes=('', sfx))\<close>. The result has the
  columns of \<open>left\<close> followed by the columns of \<open>right\<close> other than the keys, a right
  column whose name \<open>left\<close> already has being renamed with the suffix. Every left row,
  in order, is paired with each right row that agrees with it on the keys (missing keys
  agree with missing keys), and is kept once with missing right cells when there is none.
\<close>

definition suffixed :: "string list \<Rightarrow> string \<Rightarrow> string \<Rightarrow> string" where
  "suffixed taken sfx c = (if c \<in> set taken then c @ sfx else c)"

definition join_rows :: "string list \<Rightarrow> string \<Rightarrow> string list \<Rightarrow> row \<Rightarrow> row \<Rightarrow> row" where
  "join_rows lcols sfx rcols l r =
     (\<lambda>c. if c \<in> set lcols then l c
          else case find (\<lambda>c'. suffixed lcols sfx c' = c) rcols of
                 Some c' \<Rightarrow> r c' | None \<Rightarrow> Null)"

definition matches :: "string list \<Rightarrow> row \<Rightarrow> frame \<Rightarrow> row list" where
  "matches on l right = filter (\<lambda>r. list_all (\<lambda>k. r k = l k) on) (rows right)"

definition merge_left :: "string list \<Rightarrow> string \<Rightarrow> frame \<Rightarrow> frame \<Rightarrow> frame" where
  "merge_left on sfx left right =
     (let rcols = filter (\<lambda>c. c \<notin> set on) (columns right) in
      \<lparr>columns = columns left @ map (suffixed (columns left) sfx) rcols,
       rows = concat (map (\<lambda>l. case matches on l right of
                                  [] \<Rightarrow> [join_rows (columns left) sfx rcols l (\<lambda>c. Null)]
                                | ms \<Rightarrow> map (join_rows (columns left) sfx rcols l) ms)
                       (rows left))\<rparr>)"

definition merge_inner :: "string list \<Rightarrow> frame \<Rightarrow> frame \<Rightarrow> frame" where
  \<comment> \<open>\<open>pd.merge(left, right, on=on, how='inner')\<close> with the default suffixes: a column
      other than a key that both tables have is renamed on both sides\<close>
  "merge_inner on left right =
     (let rcols = filter (\<lambda>c. c \<notin> set on) (columns right);
          lname = (\<lambda>c. if c \<notin> set on \<and> c \<in> set (columns right) then c @ ''_x'' else c);
          rname = suffixed (columns left) ''_y''
      in \<lparr>columns = map lname (columns left) @ map rname rcols,
          rows = concat (map (\<lambda>l. map (\<lambda>r c. case find (\<lambda>c'. lname c' = c) (columns left) of
                                               Some c' \<Rightarrow> l c'
                                             | None \<Rightarrow>
                                                 (case find (\<lambda>c'. rname c' = c) rcols of
                                                    Some c' \<Rightarrow> r c' | None \<Rightarrow> Null))
                                     (matches on l right))
                          (rows left))\<rparr>)"

text \<open>
  \<open>df.groupby(by).agg({c: 'mean' for c in cols}).reset_index()\<close>: one row per
  combination of key cells, in ascending order of the keys; rows with a missing key are
  in no group. The mean skips missing cells and is missing when a group has no value.
\<close>

definition series_mean :: "val list \<Rightarrow> val" where
  "series_mean vs = (case nums vs of [] \<Rightarrow> Null | x # xs \<Rightarrow> Num (mean (x # xs)))"

definition group_rows :: "string list \<Rightarrow> frame \<Rightarrow> val list \<Rightarrow> row list" where
  "group_rows by df k = filter (\<lambda>r. map r by = k) (rows df)"

definition groupby_keys :: "string list \<Rightarrow> frame \<Rightarrow> val list list" where
  "groupby_keys by df =
     sort_key (map sort_rank)
       (remdups (filter (\<lambda>k. Null \<notin> set k) (map (\<lambda>r. map r by) (rows df))))"

definition groupby_mean :: "string list \<Rightarrow> string list \<Rightarrow> frame \<Rightarrow> frame" where
  "groupby_mean by cols df =
     \<lparr>columns = by @ cols,
      rows = map (\<lambda>k c. case map_of (zip by k) c of
                         Some v \<Rightarrow> v
                       | None \<Rightarrow> if c \<in> set cols
                                 then series_mean (map (\<lambda>r. r c) (group_rows by df k))
                                 else Null)
               (groupby_keys by df)\<rparr>"

definition and_then :: "error + 'a \<Rightarrow> ('a \<Rightarrow> error + 'b) \<Rightarrow> error + 'b" where
  \<comment> \<open>the next statement runs unless the one before raised\<close>
  "and_then m f = (case m of Inl e \<Rightarrow> Inl e | Inr x \<Rightarrow> f x)"

section \<open>Panel merger (scripts/merge\_panel.py)\<close>

text \<open>The auxiliary files the script looks for; \<open>None\<close> is a file that does not exist.\<close>

record sources =
  congestion_comprehensive :: "frame option"
  tomtom :: "frame option"
  uitp :: "frame option"
  psa :: "frame option"
  openaq :: "frame option"
  overpass :: "frame option"
  ltfrb :: "frame option"
  jica :: "frame option"
  adb :: "frame option"

definition merge_on :: "string list \<Rightarrow> string \<Rightarrow> frame \<Rightarrow> frame \<Rightarrow> error + frame" where
  \<comment> \<open>a merge raises \<open>KeyError\<close> when one side lacks a key column\<close>
  "merge_on on sfx right df =
     (if has_columns df on \<and> has_columns right on then Inr (merge_left on sfx df right)
      else Inl KeyError)"

definition merge_congestion :: "sources \<Rightarrow> frame \<Rightarrow> error + frame" where
  \<comment> \<open>the comprehensive congestion file is preferred to the raw TomTom file\<close>
  "merge_congestion src df =
     (case congestion_comprehensive src of
        Some congestion \<Rightarrow> merge_on [''country'', ''year''] ''_congestion'' congestion df
      | None \<Rightarrow>
          (case tomtom src of
             Some t \<Rightarrow> merge_on [''country'', ''year''] ''_tomtom'' t df
           | None \<Rightarrow> Inr df))"

definition modal_columns :: "string list" where
  "modal_columns = [''modal_share_public'', ''modal_share_private'', ''modal_share_walk'',
     ''modal_share_bike'']"

definition uitp_country :: "frame \<Rightarrow> error + frame" where
  \<comment> \<open>city-level modal shares are averaged per country and year\<close>
  "uitp_country u =
     (if ''city'' \<in> set (columns u)
      then if has_columns u ([''country'', ''year''] @ modal_columns)
           then Inr (groupby_mean [''country'', ''year''] modal_columns u)
           else Inl KeyError
      else Inr u)"

definition merge_uitp :: "sources \<Rightarrow> frame \<Rightarrow> error + frame" where
  "merge_uitp src df =
     (case uitp src of
        Some u \<Rightarrow> and_then (uitp_country u)
                   (\<lambda>uc. merge_on [''country'', ''year''] ''_uitp'' uc df)
      | None \<Rightarrow> Inr df)"

definition merge_file :: "string \<Rightarrow> frame option \<Rightarrow> frame \<Rightarrow> error + frame" where
  "merge_file sfx file df =
     (case file of
        Some right \<Rightarrow> merge_on [''country'', ''year''] sfx right df
      | None \<Rightarrow> Inr df)"

definition drop_column :: "string \<Rightarrow> frame \<Rightarrow> frame" where
  \<comment> \<open>\<open>df.drop(columns=[c], errors='ignore')\<close>\<close>
  "drop_column c df =
     \<lparr>columns = filter (\<lambda>c'. c' \<noteq> c) (columns df), rows = map (\<lambda>r. r(c := Null)) (rows df)\<rparr>"

definition merge_overpass :: "sources \<Rightarrow> frame \<Rightarrow> error + frame" where
  \<comment> \<open>OSM data without a year applies to all years of the country\<close>
  "merge_overpass src df =
     (case overpass src of
        Some ov \<Rightarrow>
          if ''year'' \<notin> set (columns ov)
          then merge_on [''country''] ''_overpass'' (drop_column ''note'' ov) df
          else merge_on [''country'', ''year''] ''_overpass'' ov df
      | None \<Rightarrow> Inr df)"

definition merge_sources :: "frame \<Rightarrow> sources \<Rightarrow> error + frame" where
  \<comment> \<open>the chain of left joins onto the base table, lines 16 to 153\<close>
  "merge_sources base src =
     fold (\<lambda>step df. and_then df step)
       [merge_congestion src, merge_uitp src, merge_file ''_psa'' (psa src),
        merge_file ''_openaq'' (openaq src), merge_overpass src,
        merge_file ''_ltfrb'' (ltfrb src), merge_file ''_jica'' (jica src),
        merge_file ''_adb'' (adb src)]
       (Inr base)"

text \<open>
  Arithmetic on numeric cells; a missing operand gives a missing result. A division by
  zero is an infinity or NaN in floating point: the tables of this model have no cell for
  an infinity, and the quotient is left missing.
\<close>

definition num_div :: "val \<Rightarrow> val \<Rightarrow> val" where
  "num_div a b =
     (case (a, b) of (Num x, Num y) \<Rightarrow> if y = 0 then Null else Num (x / y) | _ \<Rightarrow> Null)"

definition num_times :: "val \<Rightarrow> real \<Rightarrow> val" where
  "num_times a k = (case a of Num x \<Rightarrow> Num (x * k) | _ \<Rightarrow> Null)"

definition transit_investment :: "frame \<Rightarrow> frame" where
  \<comment> \<open>lines 155 to 168\<close>
  "transit_investment df =
     (if ''transit_investment_gdp'' \<notin> set (columns df) \<or>
         list_all (\<lambda>v. v = Null) (col_vals df ''transit_investment_gdp'')
      then
        if ''adb_loan_amount'' \<in> set (columns df) \<and> ''gdp_current_usd'' \<in> set (columns df)
        then assign df ''transit_investment_gdp''
               (map (\<lambda>r. num_times (num_div (r ''adb_loan_amount'') (r ''gdp_current_usd'')) 100)
                  (rows df))
        else if ''road_length_km'' \<in> set (columns df) \<and> ''gdp_current_usd'' \<in> set (columns df)
        then assign df ''transit_investment_gdp''
               (map (\<lambda>r. num_times
                            (num_div (num_times (r ''road_length_km'') 1000000)
                               (r ''gdp_current_usd'')) 100)
                  (rows df))
        else assign df ''transit_investment_gdp'' (replicate (length (rows df)) (Num 0))
      else df)"

definition group_shift :: "val list \<Rightarrow> val list \<Rightarrow> val list" where
  \<comment> \<open>\<open>df.groupby(key)[col].shift(1)\<close>: the cell of the previous row of the same group\<close>
  "group_shift keys vs =
     map (\<lambda>i. if keys ! i = Null then Null
              else case filter (\<lambda>j. keys ! j = keys ! i) [0..<i] of
                     [] \<Rightarrow> Null
                   | j # js \<Rightarrow> vs ! last (j # js))
       [0..<length vs]"

definition lagged :: "frame \<Rightarrow> frame" where
  "lagged df =
     (let sorted_df = sort_values [''country'', ''year''] df in
      if ''transit_invest_lag1'' \<notin> set (columns sorted_df)
      then assign sorted_df ''transit_invest_lag1''
             (group_shift (col_vals sorted_df ''country'')
                (col_vals sorted_df ''transit_investment_gdp''))
      else sorted_df)"

definition rename_map :: "(string \<times> string) list" where
  "rename_map =
     [(''congestion_level_pct'', ''congestion_index''),
      (''congestion_level'', ''congestion_index''),
      (''pm25_annual_mean'', ''pm25''),
      (''pm25_value'', ''pm25''),
      (''urban_population_pct'', ''population_density''),
      (''modal_share'', ''modal_share_public'')]"

definition rename_column :: "string \<Rightarrow> string \<Rightarrow> frame \<Rightarrow> frame" where
  "rename_column old_name new_name df =
     \<lparr>columns = map (\<lambda>c. if c = old_name then new_name else c) (columns df),
      rows = map (\<lambda>r. (r(new_name := r old_name))(old_name := Null)) (rows df)\<rparr>"

definition standardize_names :: "frame \<Rightarrow> frame" where
  "standardize_names df =
     fold (\<lambda>(old_name, new_name) d.
             if old_name \<in> set (columns d) \<and> new_name \<notin> set (columns d)
             then rename_column old_name new_name d else d)
       rename_map df"

definition final_columns :: "string list" where
  "final_columns =
     [''country'', ''year'', ''transit_investment_gdp'', ''modal_share_public'',
      ''congestion_index'', ''gdp_per_capita'', ''pm25'', ''population_density'',
      ''log_gdp_per_capita'', ''transit_invest_lag1'', ''high_invest_dummy'',
      ''data_source'', ''estimation_method'']"

definition ensure_columns :: "frame \<Rightarrow> frame" where
  \<comment> \<open>a final column the table lacks is added, missing in every row\<close>
  "ensure_columns df =
     fold (\<lambda>col d. if col \<notin> set (columns d)
                  then assign d col (replicate (length (rows d)) Null) else d)
       final_columns df"

definition select_columns :: "string list \<Rightarrow> frame \<Rightarrow> frame" where
  \<comment> \<open>\<open>df[cols].copy()\<close>, for columns the frame has\<close>
  "select_columns cols df =
     \<lparr>columns = cols, rows = map (\<lambda>r c. if c \<in> set cols then r c else Null) (rows df)\<rparr>"

definition finish_panel :: "frame \<Rightarrow> frame" where
  \<comment> \<open>lines 155 to 210: from the merged table to \<open>df_clean\<close>\<close>
  "finish_panel df =
     select_columns final_columns
       (ensure_columns (standardize_names (lagged (transit_investment df))))"

definition merge_panel :: "frame \<Rightarrow> sources \<Rightarrow> error + frame" where
  \<comment> \<open>the content of clean\_panel.csv; sorting by country and year needs both columns\<close>
  "merge_panel base src =
     and_then (merge_sources base src)
       (\<lambda>df. if has_columns df [''country'', ''year''] then Inr (finish_panel df)
             else Inl KeyError)"

definition panel_key :: "row \<Rightarrow> val \<times> val" where
  "panel_key r = (r ''country'', r ''year'')"

definition unique_on :: "string list \<Rightarrow> frame \<Rightarrow> bool" where
  \<comment> \<open>no two rows of the table agree on all the key columns\<close>
  "unique_on on df = distinct (map (\<lambda>r. map r on) (rows df))"

definition unique_or_absent :: "string list \<Rightarrow> frame option \<Rightarrow> bool" where
  "unique_or_absent on file = (case file of None \<Rightarrow> True | Some df \<Rightarrow> unique_on on df)"

definition sources_unique :: "sources \<Rightarrow> bool" where
  \<comment> \<open>every table the script joins onto the base has unique join keys: the congestion
      table it picks, the modal shares when they are not aggregated (the aggregation makes
      the keys unique), OSM data by country when it has no year\<close>
  "sources_unique src =
     ((case congestion_comprehensive src of
         Some c \<Rightarrow> unique_on [''country'', ''year''] c
       | None \<Rightarrow> unique_or_absent [''country'', ''year''] (tomtom src)) \<and>
      (case uitp src of
         Some u \<Rightarrow> ''city'' \<in> set (columns u) \<or> unique_on [''country'', ''year''] u
       | None \<Rightarrow> True) \<and>
      unique_or_absent [''country'', ''year''] (psa src) \<and>
      unique_or_absent [''country'', ''year''] (openaq src) \<and>
      (case overpass src of
         Some ov \<Rightarrow> if ''year'' \<in> set (columns ov) then unique_on [''country'', ''year''] ov
                    else unique_on [''country''] ov
       | None \<Rightarrow> True) \<and>
      unique_or_absent [''country'', ''year''] (ltfrb src) \<and>
      unique_or_absent [''country'', ''year''] (jica src) \<and>
      unique_or_absent [''country'', ''year''] (adb src))"

section \<open>Congestion proxy estimator (src/data\_collection/data\_gathering\_congestion\_proxy.py)\<close>

definition tomtom_country :: "frame \<Rightarrow> frame" where
  \<comment> \<open>city-level measurements averaged per country and year\<close>
  "tomtom_country tomtom_df =
     groupby_mean [''country'', ''year''] [''congestion_level_pct'', ''travel_time_index'']
       tomtom_df"

text \<open>
  The rule-based estimate of one row. \<open>cols\<close> are the columns of the World Bank table
  (\<open>row.get('road_per_capita', 1.0)\<close> reads the column when the table has it) and \<open>z\<close> is
  the draw of \<open>np.random.normal(0, 2)\<close> for the row. A comparison with a missing number is
  false, and a sum with a missing number is missing (\<open>None\<close>); Python's
  \<open>min(75, x)\<close> returns 75 unless \<open>x < 75\<close>, and \<open>max(15, y)\<close> returns 15 unless
  \<open>y > 15\<close>.
\<close>

definition asia_high_congestion :: "string list" where
  "asia_high_congestion = [''Philippines'', ''Thailand'', ''Indonesia'', ''Vietnam'', ''India'',
     ''Bangladesh'', ''Pakistan'']"

definition developed_good_transit :: "string list" where
  "developed_good_transit = [''Singapore'', ''Japan'', ''South Korea'', ''Germany'',
     ''Netherlands'', ''Denmark'', ''Switzerland'']"

definition car_dependent :: "string list" where
  "car_dependent = [''United States'', ''Australia'', ''Canada'']"

definition latam_megacities :: "string list" where
  "latam_megacities = [''Colombia'', ''Brazil'', ''Mexico'', ''Peru'', ''Argentina'']"

definition gdp_effect :: "val \<Rightarrow> real" where
  "gdp_effect gdp_per_cap =
     (case gdp_per_cap of
        Num g \<Rightarrow> if g < 5000 then 5 else if g < 15000 then 20 else if g < 40000 then 12 else 5
      | _ \<Rightarrow> 5)"

definition urban_effect :: "val \<Rightarrow> real option" where
  "urban_effect urban_pct = (case urban_pct of Num u \<Rightarrow> Some ((u / 100) * 15) | _ \<Rightarrow> None)"

definition road_effect :: "val \<Rightarrow> real" where
  "road_effect road_per_cap =
     (case road_per_cap of
        Num r \<Rightarrow> if r > 0 then (if 10 - r * 3 > 0 then 10 - r * 3 else 0) else 10
      | _ \<Rightarrow> 10)"

definition pop_effect :: "val \<Rightarrow> real" where
  "pop_effect population =
     (case population of
        Num p \<Rightarrow> if p > 100000000 then 8 else if p > 50000000 then 5
                else if p > 10000000 then 3 else 0
      | _ \<Rightarrow> 0)"

definition in_list :: "val \<Rightarrow> string list \<Rightarrow> bool" where
  "in_list country names = (case country of Str s \<Rightarrow> s \<in> set names | _ \<Rightarrow> False)"

definition regional_effect :: "val \<Rightarrow> val \<Rightarrow> real" where
  "regional_effect country urban_pct =
     (let e0 = 0;
          e1 = (if in_list country asia_high_congestion then 15 else e0);
          e2 = (if in_list country developed_good_transit then - 10 else e1);
          e3 = (if in_list country car_dependent then 5 else e2)
      in if in_list country latam_megacities \<and>
            (case urban_pct of Num u \<Rightarrow> u > 70 | _ \<Rightarrow> False)
         then 12 else e3)"

definition estimate_congestion :: "string list \<Rightarrow> row \<Rightarrow> real \<Rightarrow> real" where
  "estimate_congestion cols r z =
     (let base_congestion = 25;
          road_per_cap = (if ''road_per_capita'' \<in> set cols then r ''road_per_capita'' else Num 1);
          estimated =
            map_option (\<lambda>u. base_congestion + gdp_effect (r ''gdp_per_capita'') + u +
                             road_effect road_per_cap + pop_effect (r ''population'') +
                             regional_effect (r ''country'') (r ''urban_population_pct'') + z)
              (urban_effect (r ''urban_population_pct''));
          capped = (case estimated of Some e \<Rightarrow> if e < 75 then e else 75 | None \<Rightarrow> 75)
      in if capped > 15 then capped else 15)"

definition set_columns :: "string list \<Rightarrow> frame \<Rightarrow> frame" where
  \<comment> \<open>\<open>df.columns = names\<close>: the columns are renamed by position\<close>
  "set_columns names df =
     \<lparr>columns = names,
      rows = map (\<lambda>r c. case map_of (zip names (columns df)) c of
                         Some old_name \<Rightarrow> r old_name | None \<Rightarrow> Null)
               (rows df)\<rparr>"

definition estimated_data :: "frame \<Rightarrow> val list \<Rightarrow> val list \<Rightarrow> string \<Rightarrow> frame" where
  \<comment> \<open>the three columns added to the World Bank table, and the five columns taken
      from it under their final names\<close>
  "estimated_data wb_df congestion travel_time tag =
     set_columns [''country'', ''year'', ''congestion_level_pct'', ''travel_time_index'',
                  ''estimation_method'']
       (select_columns [''country'', ''year'', ''congestion_level_pct_estimated'',
                        ''travel_time_index_estimated'', ''estimation_method'']
          (assign
             (assign
                (assign wb_df ''congestion_level_pct_estimated'' congestion)
                ''travel_time_index_estimated'' travel_time)
             ''estimation_method'' (replicate (length (rows wb_df)) (Str tag))))"

definition rule_based_estimates :: "(nat \<Rightarrow> real) \<Rightarrow> frame \<Rightarrow> frame" where
  \<comment> \<open>\<open>noise i\<close> is the normal draw made for row \<open>i\<close>\<close>
  "rule_based_estimates noise wb_df =
     (let est = map (\<lambda>i. estimate_congestion (columns wb_df) (rows wb_df ! i) (noise i))
                  [0..<length (rows wb_df)]
      in estimated_data wb_df (map Num est) (map (\<lambda>e. Num (1 + e / 100)) est) ''rule_based'')"

definition ml_estimates :: "real list \<Rightarrow> frame \<Rightarrow> frame" where
  \<comment> \<open>the travel time index is computed from the prediction before it is clipped
      to [10, 80]\<close>
  "ml_estimates predictions wb_df =
     estimated_data wb_df (map (\<lambda>p. Num (min 80 (max 10 p))) predictions)
       (map (\<lambda>p. Num (1 + p / 100)) predictions) ''ml_random_forest''"

definition concat_frames :: "frame \<Rightarrow> frame \<Rightarrow> frame" where
  \<comment> \<open>\<open>pd.concat([a, b])\<close>\<close>
  "concat_frames a b =
     \<lparr>columns = columns a @ filter (\<lambda>c. c \<notin> set (columns a)) (columns b),
      rows = rows a @ rows b\<rparr>"

fun keep_first :: "('a \<Rightarrow> 'k) \<Rightarrow> 'a list \<Rightarrow> 'a list" where
  "keep_first key [] = []"
| "keep_first key (x # xs) = x # keep_first key (filter (\<lambda>y. key y \<noteq> key x) xs)"

definition drop_duplicates :: "string list \<Rightarrow> frame \<Rightarrow> frame" where
  \<comment> \<open>\<open>df.drop_duplicates(subset=subset, keep='first')\<close>; missing cells count as equal\<close>
  "drop_duplicates on df = df\<lparr>rows := keep_first (\<lambda>r. map r on) (rows df)\<rparr>"

definition combined :: "frame \<Rightarrow> frame \<Rightarrow> frame" where
  \<comment> \<open>actual rows and estimated rows together, the actual row first within a key
      (\<open>'actual_tomtom'\<close> sorts before the names of the estimation methods), one row kept
      per key, and the final order by country and year\<close>
  "combined tomtom_c estimated =
     (let actual = assign tomtom_c ''estimation_method''
                     (replicate (length (rows tomtom_c)) (Str ''actual_tomtom''));
          both = sort_values [''country'', ''year'', ''estimation_method'']
                   (concat_frames actual estimated);
          kept = drop_duplicates [''country'', ''year''] both;
          tagged = assign kept ''data_source'' (col_vals kept ''estimation_method'')
      in sort_values [''country'', ''year''] tagged)"

text \<open>
  The script. scikit-learn is not part of the repository: \<open>predict merged wb_df\<close> stands
  for lines 168 to 217, the predictions for the rows of the World Bank table of the forest
  fitted on the merged training table, or \<open>None\<close> when the library raises. The result is
  the content of congestion\_comprehensive.csv.
\<close>

definition congestion_proxy ::
  "(frame \<Rightarrow> frame \<Rightarrow> real list option) \<Rightarrow> (nat \<Rightarrow> real) \<Rightarrow> frame \<Rightarrow> frame \<Rightarrow> error + frame" where
  "congestion_proxy predict noise wb_df tomtom_df =
     (if \<not> has_columns tomtom_df
            [''country'', ''year'', ''congestion_level_pct'', ''travel_time_index'']
      then Inl KeyError
      else if \<not> has_columns wb_df [''country'', ''year''] then Inl KeyError
      else
        let tomtom_c = tomtom_country tomtom_df;
            merged = merge_inner [''country'', ''year''] tomtom_c wb_df
        in if length (rows merged) < 20
           then if \<not> has_columns wb_df
                       [''gdp_per_capita'', ''urban_population_pct'', ''population'']
                then Inl KeyError
                else Inr (combined tomtom_c (rule_based_estimates noise wb_df))
           else (case predict merged wb_df of
                   None \<Rightarrow> Inl ValueError
                 | Some predictions \<Rightarrow>
                     if length predictions \<noteq> length (rows wb_df) then Inl ValueError
                     else Inr (combined tomtom_c (ml_estimates predictions wb_df))))"

section \<open>Example tables\<close>

definition panel_2019_2020 :: frame where
  "panel_2019_2020 =
     \<lparr>columns = [''country'', ''year''],
      rows = [mk_row [(''country'', Str ''A''), (''year'', Num 2019)],
              mk_row [(''country'', Str ''A''), (''year'', Num 2020)]]\<rparr>"

definition panel_2021 :: frame where
  "panel_2021 =
     \<lparr>columns = [''country'', ''year''],
      rows = [mk_row [(''country'', Str ''A''), (''year'', Num 2021)]]\<rparr>"

definition panel_missing_year :: frame where
  \<comment> \<open>country A has two rows, one of them without a year; country B has one row\<close>
  "panel_missing_year =
     \<lparr>columns = [''country'', ''year''],
      rows = [mk_row [(''country'', Str ''A''), (''year'', Num 2000)],
              mk_row [(''country'', Str ''A''), (''year'', Null)],
              mk_row [(''country'', Str ''B''), (''year'', Num 2000)]]\<rparr>"

definition three_values :: frame where
  "three_values =
     \<lparr>columns = [''x''],
      rows = [mk_row [(''x'', Num 0)], mk_row [(''x'', Num 1)], mk_row [(''x'', Num 2)]]\<rparr>"

definition panel_no_observation :: frame where
  \<comment> \<open>country B has no observation of gdp\_per\_capita\<close>
  "panel_no_observation =
     \<lparr>columns = [''country'', ''year'', ''gdp_per_capita''],
      rows = [mk_row [(''country'', Str ''A''), (''year'', Num 2000), (''gdp_per_capita'', Num 1)],
              mk_row [(''country'', Str ''A''), (''year'', Num 2001), (''gdp_per_capita'', Num 3)],
              mk_row [(''country'', Str ''B''), (''year'', Num 2000), (''gdp_per_capita'', Null)]]\<rparr>"

definition congestion_2019_2020 :: frame where
  "congestion_2019_2020 =
     \<lparr>columns = [''country'', ''year'', ''congestion_level_pct'', ''data_source''],
      rows = [mk_row [(''country'', Str ''A''), (''year'', Num 2019),
                      (''congestion_level_pct'', Num 40), (''data_source'', Str ''actual_tomtom'')],
              mk_row [(''country'', Str ''A''), (''year'', Num 2020),
                      (''congestion_level_pct'', Num 55), (''data_source'', Str ''rule_based'')]]\<rparr>"

definition no_sources :: sources where
  "no_sources =
     \<lparr>congestion_comprehensive = None, tomtom = None, uitp = None, psa = None, openaq = None,
      overpass = None, ltfrb = None, jica = None, adb = None\<rparr>"

definition congestion_only :: sources where
  "congestion_only = no_sources\<lparr>congestion_comprehensive := Some congestion_2019_2020\<rparr>"

definition wb_one_row :: frame where
  "wb_one_row =
     \<lparr>columns = [''country'', ''year'', ''gdp_per_capita'', ''urban_population_pct'',
                 ''population''],
      rows = [mk_row [(''country'', Str ''A''), (''year'', Num 2020), (''gdp_per_capita'', Num 1000),
                      (''urban_population_pct'', Num 50), (''population'', Num 1000000)]]\<rparr>"

definition tomtom_measured :: frame where
  \<comment> \<open>the scenario of the specification: 40 measured for (A, 2020)\<close>
  "tomtom_measured =
     \<lparr>columns = [''city'', ''country'', ''year'', ''congestion_level_pct'', ''travel_time_index''],
      rows = [mk_row [(''city'', Str ''X''), (''country'', Str ''A''), (''year'', Num 2020),
                      (''congestion_level_pct'', Num 40), (''travel_time_index'', Num (14 / 10))]]\<rparr>"

definition tomtom_unmeasured :: frame where
  \<comment> \<open>a city listed for (A, 2020) without a congestion value\<close>
  "tomtom_unmeasured =
     \<lparr>columns = [''city'', ''country'', ''year'', ''congestion_level_pct'', ''travel_time_index''],
      rows = [mk_row [(''city'', Str ''X''), (''country'', Str ''A''), (''year'', Num 2020),
                      (''congestion_level_pct'', Null), (''travel_time_index'', Null)]]\<rparr>"

definition tomtom_elsewhere :: frame where
  \<comment> \<open>a measurement for another country and year\<close>
  "tomtom_elsewhere =
     \<lparr>columns = [''city'', ''country'', ''year'', ''congestion_level_pct'', ''travel_time_index''],
      rows = [mk_row [(''city'', Str ''Y''), (''country'', Str ''B''), (''year'', Num 2019),
                      (''congestion_level_pct'', Num 40), (''travel_time_index'', Num (14 / 10))]]\<rparr>"

section \<open>Properties of the splitter\<close>

lemma fold_max_ge: "(a::real) \<le> fold max xs a"
  by (induction xs arbitrary: a) (auto intro: order_trans [OF max.cobounded2])

lemma fold_max_bound:
  "(a::real) < b \<Longrightarrow> \<forall>x\<in>set xs. x < b \<Longrightarrow> fold max xs a < b"
  by (induction xs arbitrary: a) auto

lemma fold_min_bound:
  "(b::real) \<le> a \<Longrightarrow> \<forall>x\<in>set xs. b \<le> x \<Longrightarrow> b \<le> fold min xs a"
  by (induction xs arbitrary: a) auto

lemma nums_mem: "x \<in> set (nums vs) \<longleftrightarrow> Num x \<in> set vs"
  by (induction vs) (auto simp: nums_def split: val.splits)

lemma nums_nonempty: "Num x \<in> set vs \<Longrightarrow> nums vs \<noteq> []"
  using nums_mem [of x vs] by auto

lemma year_lt_iff: "year_lt s r \<longleftrightarrow> (\<exists>y. r ''year'' = Num y \<and> y < s)"
  by (auto simp: year_lt_def split: val.splits)

lemma year_ge_iff: "year_ge s r \<longleftrightarrow> (\<exists>y. r ''year'' = Num y \<and> s \<le> y)"
  by (auto simp: year_ge_def split: val.splits)

lemma series_max_train:
  assumes "rows (split_train df s) \<noteq> []"
  shows "\<exists>m. series_max (col_vals (split_train df s) ''year'') = Some m \<and> m < s"
proof -
  let ?vs = "col_vals (split_train df s) ''year''"
  have all: "\<forall>x\<in>set (nums ?vs). x < s"
    by (auto simp: nums_mem col_vals_def split_train_def year_lt_iff)
  from assms obtain r where r: "r \<in> set (rows (split_train df s))"
    by (cases "rows (split_train df s)") auto
  then obtain y where "r ''year'' = Num y"
    by (auto simp: split_train_def year_lt_iff)
  with r have "Num y \<in> set ?vs"
    by (auto simp: col_vals_def image_iff intro!: bexI [of _ r])
  then have "nums ?vs \<noteq> []" by (rule nums_nonempty)
  then obtain x xs where xs: "nums ?vs = x # xs" by (cases "nums ?vs") auto
  with all have "fold max xs x < s" by (intro fold_max_bound) auto
  with xs show ?thesis by (simp add: series_max_def)
qed

lemma series_min_test:
  assumes "rows (split_test df s) \<noteq> []"
  shows "\<exists>m. series_min (col_vals (split_test df s) ''year'') = Some m \<and> s \<le> m"
proof -
  let ?vs = "col_vals (split_test df s) ''year''"
  have all: "\<forall>x\<in>set (nums ?vs). s \<le> x"
    by (auto simp: nums_mem col_vals_def split_test_def year_ge_iff)
  from assms obtain r where r: "r \<in> set (rows (split_test df s))"
    by (cases "rows (split_test df s)") auto
  then obtain y where "r ''year'' = Num y"
    by (auto simp: split_test_def year_ge_iff)
  with r have "Num y \<in> set ?vs"
    by (auto simp: col_vals_def image_iff intro!: bexI [of _ r])
  then have "nums ?vs \<noteq> []" by (rule nums_nonempty)
  then obtain x xs where xs: "nums ?vs = x # xs" by (cases "nums ?vs") auto
  with all have "s \<le> fold min xs x" by (intro fold_min_bound) auto
  with xs show ?thesis by (simp add: series_min_def)
qed


text \<open>
  C3. For any panel and any split year, the train set is exactly the rows with
  \<open>year < split_year\<close> and the test set exactly the rows with \<open>year \<ge> split_year\<close>,
  in the panel's order; so every train row lies before the split year and every test row
  at or after it, and when both sets are non-empty the largest train year is smaller than
  the smallest test year (the asserted expression is true).
\<close>

theorem time_split_no_leakage:
  "rows (split_train df s) = filter (\<lambda>r. \<exists>y. r ''year'' = Num y \<and> y < s) (rows df) \<and>
   rows (split_test df s) = filter (\<lambda>r. \<exists>y. r ''year'' = Num y \<and> s \<le> y) (rows df) \<and>
   columns (split_train df s) = columns df \<and> columns (split_test df s) = columns df \<and>
   (\<forall>r\<in>set (rows (split_train df s)). \<exists>y. r ''year'' = Num y \<and> y < s) \<and>
   (\<forall>r\<in>set (rows (split_test df s)). \<exists>y. r ''year'' = Num y \<and> s \<le> y) \<and>
   (rows (split_train df s) \<noteq> [] \<and> rows (split_test df s) \<noteq> [] \<longrightarrow>
      (\<exists>m n. series_max (col_vals (split_train df s) ''year'') = Some m \<and>
             series_min (col_vals (split_test df s) ''year'') = Some n \<and> m < s \<and> s \<le> n \<and> m < n) \<and>
      no_leakage (split_train df s) (split_test df s))"
proof -
  have tr: "rows (split_train df s) = filter (\<lambda>r. \<exists>y. r ''year'' = Num y \<and> y < s) (rows df)"
    by (simp add: split_train_def year_lt_iff [abs_def])
  have te: "rows (split_test df s) = filter (\<lambda>r. \<exists>y. r ''year'' = Num y \<and> s \<le> y) (rows df)"
    by (simp add: split_test_def year_ge_iff [abs_def])
  have cols: "columns (split_train df s) = columns df" "columns (split_test df s) = columns df"
    by (simp_all add: split_train_def split_test_def)
  have leak: "(\<exists>m n. series_max (col_vals (split_train df s) ''year'') = Some m \<and>
             series_min (col_vals (split_test df s) ''year'') = Some n \<and> m < s \<and> s \<le> n \<and> m < n) \<and>
      no_leakage (split_train df s) (split_test df s)"
    if ne: "rows (split_train df s) \<noteq> []" "rows (split_test df s) \<noteq> []"
  proof -
    from series_max_train [OF ne(1)] obtain m
      where m: "series_max (col_vals (split_train df s) ''year'') = Some m" "m < s" by blast
    from series_min_test [OF ne(2)] obtain n
      where n: "series_min (col_vals (split_test df s) ''year'') = Some n" "s \<le> n" by blast
    from m n have "m < n" by simp
    with m n show ?thesis by (simp add: no_leakage_def nan_less_def)
  qed
  from tr te cols leak show ?thesis by auto
qed


theorem time_split_no_leakage_witness:
  "rows (split_train panel_2019_2020 2020) \<noteq> [] \<and>
   rows (split_test panel_2019_2020 2020) \<noteq> [] \<and>
   col_vals (split_train panel_2019_2020 2020) ''year'' = [Num 2019] \<and>
   col_vals (split_test panel_2019_2020 2020) ''year'' = [Num 2020] \<and>
   no_leakage (split_train panel_2019_2020 2020) (split_test panel_2019_2020 2020)"
proof -
  have v: "col_vals (split_train panel_2019_2020 2020) ''year'' = [Num 2019]"
    "col_vals (split_test panel_2019_2020 2020) ''year'' = [Num 2020]"
    by (simp_all add: col_vals_def split_train_def split_test_def panel_2019_2020_def
        year_lt_def year_ge_def mk_row_def)
  have ne: "rows (split_train panel_2019_2020 2020) \<noteq> []"
    "rows (split_test panel_2019_2020 2020) \<noteq> []"
    by (simp_all add: split_train_def split_test_def panel_2019_2020_def year_lt_def
        year_ge_def mk_row_def)
  with v time_split_no_leakage [of panel_2019_2020 2020] show ?thesis by blast
qed

text \<open>
  C8. The script checks the leakage invariant before saving the World Bank split only.
  On a World Bank table with the years 2019 and 2020 and a clean panel holding the single
  year 2021, the World Bank split passes the assertion and is saved; the clean-panel
  split is then saved as well, although its train part is empty and the asserted
  expression, evaluated on it, is false: nothing evaluates it on that path.
\<close>

theorem clean_split_saved_unchecked:
  "map fst (fst (train_test_split (Some panel_2019_2020) (Some panel_2021))) =
     [''worldbank_train.csv'', ''worldbank_test.csv'',
      ''clean_panel_train.csv'', ''clean_panel_test.csv''] \<and>
   snd (train_test_split (Some panel_2019_2020) (Some panel_2021)) = None \<and>
   rows (split_train panel_2021 split_year) = [] \<and>
   \<not> no_leakage (split_train panel_2021 split_year) (split_test panel_2021 split_year)"
proof -
  have ok: "no_leakage (split_train panel_2019_2020 split_year)
              (split_test panel_2019_2020 split_year)"
    by (simp add: no_leakage_def nan_less_def series_max_def series_min_def nums_def
        col_vals_def split_train_def split_test_def panel_2019_2020_def year_lt_def
        year_ge_def mk_row_def split_year_def)
  have empty: "rows (split_train panel_2021 split_year) = []"
    by (simp add: split_train_def panel_2021_def year_lt_def mk_row_def split_year_def)
  then have bad: "\<not> no_leakage (split_train panel_2021 split_year)
                     (split_test panel_2021 split_year)"
    by (simp add: no_leakage_def nan_less_def series_max_def nums_def col_vals_def)
  have cols: "has_columns panel_2019_2020 [''year'', ''country'']"
    "rows panel_2019_2020 \<noteq> []" "has_columns panel_2021 [''year'']"
    by (simp_all add: panel_2019_2020_def panel_2021_def has_columns_def)
  from ok cols have
    "train_test_split (Some panel_2019_2020) (Some panel_2021) =
       ([(''worldbank_train.csv'', split_train panel_2019_2020 split_year),
         (''worldbank_test.csv'', split_test panel_2019_2020 split_year),
         (''clean_panel_train.csv'', split_train panel_2021 split_year),
         (''clean_panel_test.csv'', split_test panel_2021 split_year)], None)"
    by (simp add: train_test_split_def Let_def)
  with empty bad show ?thesis by simp
qed

section \<open>Properties of the balancer\<close>

lemma set_country_counts:
  "set (country_counts df) =
     (\<lambda>c. (c, count_years df c)) ` {c \<in> set (col_vals df ''country''). c \<noteq> Null}"
  by (auto simp: country_counts_def group_keys_def)

lemma set_valid_countries:
  "set (valid_countries df t) =
     {c \<in> set (col_vals df ''country''). c \<noteq> Null \<and> t \<le> count_years df c}"
  by (auto simp: valid_countries_def set_country_counts image_iff)

lemma set_filtered_countries:
  "set (filtered_countries df t) =
     {c \<in> set (col_vals df ''country''). c \<noteq> Null \<and> count_years df c < t}"
  by (auto simp: filtered_countries_def set_country_counts image_iff)

lemma count_years_le: "count_years df c \<le> row_count df c"
proof -
  have "filter (\<lambda>r. r ''country'' = c \<and> r ''year'' \<noteq> Null) (rows df) =
        filter (\<lambda>r. r ''year'' \<noteq> Null) (filter (\<lambda>r. r ''country'' = c) (rows df))"
    by (simp add: conj_commute)
  then show ?thesis
    unfolding count_years_def row_count_def by (metis length_filter_le)
qed

lemma count_years_eq:
  assumes "\<forall>r\<in>set (rows df). r ''year'' \<noteq> Null"
  shows "count_years df c = row_count df c"
proof -
  have "filter (\<lambda>r. r ''country'' = c \<and> r ''year'' \<noteq> Null) (rows df) =
        filter (\<lambda>r. r ''country'' = c) (rows df)"
    using assms by (intro filter_cong) auto
  then show ?thesis by (simp add: count_years_def row_count_def)
qed

text \<open>
  C7 as stated fails: the balancer counts, per country, the rows whose year is present.
  With threshold 2, country A of the example has two rows but only one year, and is
  removed.
\<close>

theorem balance_row_count_counterexample:
  "Str ''A'' \<in> set (filtered_countries panel_missing_year 2) \<and>
   row_count panel_missing_year (Str ''A'') = 2 \<and>
   rows (df_filtered panel_missing_year 2) = []"
proof -
  have c: "count_years panel_missing_year (Str ''A'') = 1"
    "count_years panel_missing_year (Str ''B'') = 1"
    "row_count panel_missing_year (Str ''A'') = 2"
    by (simp_all add: count_years_def row_count_def panel_missing_year_def mk_row_def)
  have v: "col_vals panel_missing_year ''country'' = [Str ''A'', Str ''A'', Str ''B'']"
    by (simp add: col_vals_def panel_missing_year_def mk_row_def)
  have "set (valid_countries panel_missing_year 2) = {}"
    using c by (auto simp: set_valid_countries v)
  then have "rows (df_filtered panel_missing_year 2) = []"
    by (simp add: df_filtered_def)
  moreover have "Str ''A'' \<in> set (filtered_countries panel_missing_year 2)"
    using c by (simp add: set_filtered_countries v)
  ultimately show ?thesis using c by simp
qed

text \<open>
  C7, amended. For any panel and threshold, a country is retained exactly when the number
  of its rows with a year present is at least the threshold, and removed exactly when
  that number is below it; a retained country therefore has at least threshold rows, and
  where no year is missing the number is the country's row count. The output has the
  input's columns and consists exactly of the rows of the retained countries, unchanged
  and in order.
\<close>

theorem balance_threshold:
  "set (valid_countries df t) =
     {c \<in> set (col_vals df ''country''). c \<noteq> Null \<and> t \<le> count_years df c} \<and>
   set (filtered_countries df t) =
     {c \<in> set (col_vals df ''country''). c \<noteq> Null \<and> count_years df c < t} \<and>
   (\<forall>c\<in>set (valid_countries df t). t \<le> row_count df c) \<and>
   ((\<forall>r\<in>set (rows df). r ''year'' \<noteq> Null) \<longrightarrow>
      (\<forall>c\<in>set (filtered_countries df t). row_count df c < t)) \<and>
   columns (df_filtered df t) = columns df \<and>
   rows (df_filtered df t) =
     filter (\<lambda>r. r ''country'' \<noteq> Null \<and> t \<le> count_years df (r ''country'')) (rows df)"
proof -
  have a: "\<forall>c\<in>set (valid_countries df t). t \<le> row_count df c"
    using count_years_le [of df] by (auto simp: set_valid_countries intro: order_trans)
  have b: "\<forall>c\<in>set (filtered_countries df t). row_count df c < t"
    if "\<forall>r\<in>set (rows df). r ''year'' \<noteq> Null"
    using count_years_eq [OF that] by (auto simp: set_filtered_countries)
  have c: "rows (df_filtered df t) =
     filter (\<lambda>r. r ''country'' \<noteq> Null \<and> t \<le> count_years df (r ''country'')) (rows df)"
    unfolding df_filtered_def by (auto simp: set_valid_countries col_vals_def intro!: filter_cong)
  have d: "columns (df_filtered df t) = columns df"
    by (simp add: df_filtered_def)
  from a b c d show ?thesis
    using set_valid_countries [of df t] set_filtered_countries [of df t] by blast
qed

theorem balance_threshold_witness:
  "Null \<notin> set (col_vals panel_2019_2020 ''year'') \<and>
   set (valid_countries panel_2019_2020 2) = {Str ''A''} \<and>
   2 \<le> row_count panel_2019_2020 (Str ''A'') \<and>
   set (filtered_countries panel_2019_2020 3) = {Str ''A''} \<and>
   row_count panel_2019_2020 (Str ''A'') < 3 \<and>
   rows (df_filtered panel_2019_2020 2) = rows panel_2019_2020"
proof -
  note T2 = balance_threshold [of panel_2019_2020 2]
  note T3 = balance_threshold [of panel_2019_2020 3]
  have y: "\<forall>r\<in>set (rows panel_2019_2020). r ''year'' \<noteq> Null"
    by (simp add: panel_2019_2020_def mk_row_def)
  have n: "Null \<notin> set (col_vals panel_2019_2020 ''year'')"
    by (simp add: col_vals_def panel_2019_2020_def mk_row_def)
  have c: "count_years panel_2019_2020 (Str ''A'') = 2"
    by (simp add: count_years_def panel_2019_2020_def mk_row_def)
  have v: "col_vals panel_2019_2020 ''country'' = [Str ''A'', Str ''A'']"
    by (simp add: col_vals_def panel_2019_2020_def mk_row_def)
  have r: "\<forall>r\<in>set (rows panel_2019_2020). r ''country'' = Str ''A''"
    by (simp add: panel_2019_2020_def mk_row_def)
  have "set (valid_countries panel_2019_2020 2) =
          {c \<in> set (col_vals panel_2019_2020 ''country'').
             c \<noteq> Null \<and> 2 \<le> count_years panel_2019_2020 c}"
    using T2 by (rule conjunct1)
  also have "\<dots> = {Str ''A''}"
    unfolding v using c by auto
  finally have s2: "set (valid_countries panel_2019_2020 2) = {Str ''A''}" .
  have "set (filtered_countries panel_2019_2020 3) =
          {c \<in> set (col_vals panel_2019_2020 ''country'').
             c \<noteq> Null \<and> count_years panel_2019_2020 c < 3}"
    using T3 [THEN conjunct2] by (rule conjunct1)
  also have "\<dots> = {Str ''A''}"
    unfolding v using c by auto
  finally have s3: "set (filtered_countries panel_2019_2020 3) = {Str ''A''}" .
  have r2: "2 \<le> row_count panel_2019_2020 (Str ''A'')"
    using T2 [THEN conjunct2, THEN conjunct2, THEN conjunct1] s2 by simp
  have r3: "row_count panel_2019_2020 (Str ''A'') < 3"
    using T3 [THEN conjunct2, THEN conjunct2, THEN conjunct2, THEN conjunct1] y s3 by simp
  have "\<forall>x\<in>set (rows panel_2019_2020).
          x ''country'' \<noteq> Null \<and> 2 \<le> count_years panel_2019_2020 (x ''country'')"
    using c r by auto
  then have f: "rows (df_filtered panel_2019_2020 2) = rows panel_2019_2020"
    using T2 [THEN conjunct2, THEN conjunct2, THEN conjunct2, THEN conjunct2, THEN conjunct2]
    by (simp add: filter_id_conv)
  from n s2 r2 s3 r3 f show ?thesis by simp
qed

section \<open>Properties of the winsorizer\<close>


lemma lerp_between:
  assumes "sorted s" "s \<noteq> []" "0 \<le> h" "h \<le> real (length s - 1)"
  shows "s ! nat \<lfloor>h\<rfloor> \<le> lerp_at s h \<and> lerp_at s h \<le> s ! min (nat \<lfloor>h\<rfloor> + 1) (length s - 1)"
proof -
  let ?j = "nat \<lfloor>h\<rfloor>" and ?n = "length s"
  let ?k = "min (?j + 1) (?n - 1)"
  have j: "real ?j \<le> h" "h < real ?j + 1" using assms(3) by linarith+
  have jn: "?j \<le> ?n - 1" using j assms(4) by linarith
  have kn: "?k < ?n" using assms(2) by (cases s) auto
  have jk: "?j \<le> ?k" using jn by simp
  have le: "s ! ?j \<le> s ! ?k" using sorted_nth_mono [OF assms(1) jk kn] .
  have g0: "0 \<le> h - real ?j" and g1: "h - real ?j \<le> 1" using j by linarith+
  have a: "0 \<le> (h - real ?j) * (s ! ?k - s ! ?j)" using g0 le by simp
  have "(h - real ?j) * (s ! ?k - s ! ?j) \<le> 1 * (s ! ?k - s ! ?j)"
    using g1 le by (intro mult_right_mono) simp_all
  with a show ?thesis by (simp add: lerp_at_def Let_def)
qed

lemma lerp_mono:
  assumes "sorted s" "s \<noteq> []" "0 \<le> h1" "h1 \<le> h2" "h2 \<le> real (length s - 1)"
  shows "lerp_at s h1 \<le> lerp_at s h2"
proof -
  let ?j1 = "nat \<lfloor>h1\<rfloor>" and ?j2 = "nat \<lfloor>h2\<rfloor>" and ?n = "length s"
  have h2: "0 \<le> h2" and h1: "h1 \<le> real (?n - 1)" using assms by simp_all
  have j12: "?j1 \<le> ?j2" using assms(4) by (simp add: floor_mono nat_mono)
  have j2: "real ?j2 \<le> h2" using h2 by linarith
  have j2n: "?j2 \<le> ?n - 1" using j2 assms(5) by linarith
  have n: "?n - 1 < ?n" using assms(2) by (cases s) auto
  show ?thesis
  proof (cases "?j1 = ?j2")
    case True
    let ?k = "min (?j1 + 1) (?n - 1)"
    have "?j1 \<le> ?k" using j2n True by simp
    moreover have "?k < ?n" using n by simp
    ultimately have "s ! ?j1 \<le> s ! ?k" using sorted_nth_mono [OF assms(1)] by blast
    then have "(h1 - real ?j1) * (s ! ?k - s ! ?j1) \<le> (h2 - real ?j1) * (s ! ?k - s ! ?j1)"
      using assms(4) by (intro mult_right_mono) simp_all
    then show ?thesis using True by (simp add: lerp_at_def Let_def)
  next
    case False
    with j12 have lt: "?j1 + 1 \<le> ?j2" by simp
    have "lerp_at s h1 \<le> s ! min (?j1 + 1) (?n - 1)"
      using lerp_between [OF assms(1,2,3) h1] by simp
    also have "\<dots> \<le> s ! ?j2"
    proof -
      have "min (?j1 + 1) (?n - 1) \<le> ?j2" using lt by simp
      moreover have "?j2 < ?n" using j2n n by simp
      ultimately show ?thesis using sorted_nth_mono [OF assms(1)] by blast
    qed
    also have "\<dots> \<le> lerp_at s h2"
      using lerp_between [OF assms(1,2) h2 assms(5)] by simp
    finally show ?thesis .
  qed
qed

lemma quantile_mono:
  assumes "0 \<le> q1" "q1 \<le> q2" "q2 \<le> 1" "quantile q1 xs = Some a" "quantile q2 xs = Some b"
  shows "a \<le> b"
proof -
  from assms(4) have ne: "xs \<noteq> []" by (auto simp: quantile_def split: if_splits)
  let ?s = "sort xs" and ?m = "real (length xs - 1)"
  have "lerp_at ?s (q1 * ?m) \<le> lerp_at ?s (q2 * ?m)"
  proof (rule lerp_mono)
    show "sorted ?s" by simp
    show "?s \<noteq> []" using ne by (metis length_sort length_0_conv)
    show "0 \<le> q1 * ?m" using assms(1) by simp
    show "q1 * ?m \<le> q2 * ?m" using assms(2) by (simp add: mult_right_mono)
    have "q2 * ?m \<le> 1 * ?m" using assms(3) by (intro mult_right_mono) simp_all
    then show "q2 * ?m \<le> real (length ?s - 1)" by simp
  qed
  with assms(4,5) ne show ?thesis by (simp add: quantile_def)
qed

lemma quantile_bounds:
  assumes "0 \<le> q" "q \<le> 1" "quantile q xs = Some p" "\<forall>x\<in>set xs. lo \<le> x \<and> x \<le> hi"
  shows "lo \<le> p \<and> p \<le> hi"
proof -
  from assms(3) have ne: "xs \<noteq> []" by (auto simp: quantile_def split: if_splits)
  let ?s = "sort xs" and ?h = "q * real (length xs - 1)"
  have s: "sorted ?s" "?s \<noteq> []" using ne by (simp, metis length_sort length_0_conv)
  have h0: "0 \<le> ?h" using assms(1) by simp
  have "?h \<le> 1 * real (length xs - 1)" using assms(2) by (intro mult_right_mono) simp_all
  then have h1: "?h \<le> real (length ?s - 1)" by simp
  note b = lerp_between [OF s h0 h1]
  let ?j = "nat \<lfloor>?h\<rfloor>"
  let ?k = "min (?j + 1) (length ?s - 1)"
  have n: "length ?s - 1 < length ?s" using s(2) by (cases ?s) auto
  have "real ?j \<le> ?h" using h0 by linarith
  then have "?j \<le> length ?s - 1" using h1 by linarith
  then have "?j < length ?s" "?k < length ?s" using n by simp_all
  then have "?s ! ?j \<in> set ?s" "?s ! ?k \<in> set ?s" using nth_mem by blast+
  then have "lo \<le> ?s ! ?j" "?s ! ?k \<le> hi" using assms(4) by simp_all
  with b have "lo \<le> lerp_at ?s ?h \<and> lerp_at ?s ?h \<le> hi" by linarith
  with assms(3) ne show ?thesis by (simp add: quantile_def)
qed


lemma clip_id:
  assumes "\<forall>y. Num y \<in> set vs \<longrightarrow> lo \<le> y \<and> y \<le> hi"
  shows "map (floor_at lo) (map (cap_at hi) vs) = vs"
proof -
  have "floor_at lo (cap_at hi v) = v" if "v \<in> set vs" for v
    using assms that by (cases v) (auto simp: floor_at_def cap_at_def)
  then show ?thesis by (simp add: map_idI)
qed

lemma clip_range:
  assumes "lo \<le> hi" "Num y \<in> set (map (floor_at lo) (map (cap_at hi) vs))"
  shows "lo \<le> y \<and> y \<le> hi"
proof -
  from assms(2) obtain v where "v \<in> set vs" "Num y = floor_at lo (cap_at hi v)" by auto
  with assms(1) show ?thesis
    by (cases v) (auto simp: floor_at_def cap_at_def split: if_splits)
qed

lemma quantile_const:
  assumes "0 \<le> q" "q \<le> 1" "xs \<noteq> []" "\<forall>x\<in>set xs. x = c"
  shows "quantile q xs = Some c"
proof -
  from assms(3) obtain p where p: "quantile q xs = Some p" by (simp add: quantile_def)
  from assms(4) have "\<forall>x\<in>set xs. c \<le> x \<and> x \<le> c" by simp
  from quantile_bounds [OF assms(1,2) p this] p show ?thesis by simp
qed

lemma variance_zero:
  assumes "variance xs \<le> 0" "2 \<le> length xs" "x \<in> set xs"
  shows "x = mean xs"
proof -
  let ?sq = "map (\<lambda>x. (x - mean xs)\<^sup>2) xs"
  have nn: "\<forall>y\<in>set ?sq. 0 \<le> y" by auto
  then have s0: "0 \<le> sum_list ?sq" by (intro sum_list_nonneg) auto
  have pos: "0 < real (length xs - 1)" using assms(2) by simp
  have "sum_list ?sq \<le> 0"
    using assms(1) pos unfolding variance_def by (simp add: divide_le_0_iff)
  with s0 have "sum_list ?sq = 0" by simp
  with nn have "\<forall>y\<in>set ?sq. y = 0"
    using sum_list_nonneg_eq_0_iff [of ?sq] by blast
  with assms(3) have "(x - mean xs)\<^sup>2 = 0" by auto
  then show ?thesis by simp
qed

lemma nums_Nil_winsorize: "nums vs = [] \<Longrightarrow> winsorize_col vs = vs"
  by (simp add: winsorize_col_def std_def)

lemma winsorize_col_clip:
  assumes p99: "quantile (99 / 100) (nums vs) = Some p99"
      and p01: "quantile (1 / 100) (nums vs) = Some p01"
  shows "winsorize_col vs = map (floor_at p01) (map (cap_at p99) vs)"
proof -
  let ?xs = "nums vs"
  from p99 have ne: "?xs \<noteq> []" by (auto simp: quantile_def split: if_splits)
  have inside: "winsorize_col vs = map (floor_at p01) (map (cap_at p99) vs)"
    if "winsorize_col vs = vs" "\<forall>x\<in>set ?xs. p01 \<le> x \<and> x \<le> p99"
    using that clip_id [of vs p01 p99] by (simp add: nums_mem)
  have const: "\<forall>x\<in>set ?xs. p01 \<le> x \<and> x \<le> p99" if "\<forall>x\<in>set ?xs. x = c" for c
    using quantile_const [OF _ _ ne that, of "99 / 100"] quantile_const [OF _ _ ne that, of "1 / 100"]
      p99 p01 that by simp
  show ?thesis
  proof (cases "std ?xs")
    case None
    then have len: "length ?xs < 2" by (simp add: std_def split: if_splits)
    with ne obtain x where x: "?xs = [x]"
      by (cases ?xs) (auto simp: less_Suc_eq_le numeral_2_eq_2)
    have "winsorize_col vs = vs" using None by (simp add: winsorize_col_def)
    moreover have "\<forall>y\<in>set ?xs. p01 \<le> y \<and> y \<le> p99"
      by (rule const [of x]) (simp add: x)
    ultimately show ?thesis by (rule inside)
  next
    case (Some sd)
    then have len: "2 \<le> length ?xs" and sd: "sd = sqrt (variance ?xs)"
      by (auto simp: std_def split: if_splits)
    show ?thesis
    proof (cases "0 < sd")
      case False
      then have "variance ?xs \<le> 0" using sd by simp
      then have "\<forall>x\<in>set ?xs. x = mean ?xs" using variance_zero len by blast
      then have "\<forall>y\<in>set ?xs. p01 \<le> y \<and> y \<le> p99" by (rule const)
      moreover have "winsorize_col vs = vs" using Some False by (simp add: winsorize_col_def)
      ultimately show ?thesis using inside by blast
    next
      case True
      show ?thesis
      proof (cases "filter (\<lambda>x. x > p99) ?xs = [] \<and> filter (\<lambda>x. x < p01) ?xs = []")
        case True
        then have "\<forall>y\<in>set ?xs. p01 \<le> y \<and> y \<le> p99"
          by (auto simp: filter_empty_conv not_less)
        moreover have "winsorize_col vs = vs"
          using Some \<open>0 < sd\<close> True p99 p01 by (simp add: winsorize_col_def)
        ultimately show ?thesis using inside by blast
      next
        case False
        then show ?thesis
          using Some True p99 p01 by (auto simp: winsorize_col_def Let_def)
      qed
    qed
  qed
qed


lemma col_vals_assign:
  assumes "length vs = length (rows df)"
  shows "col_vals (assign df c vs) c' = (if c' = c then vs else col_vals df c')"
proof (cases "c' = c")
  case True
  have "map (\<lambda>r. r c) (map (\<lambda>(r, v). r(c := v)) (zip (rows df) vs)) = map snd (zip (rows df) vs)"
    by (auto simp: comp_def split_def)
  with assms True show ?thesis by (simp add: col_vals_def assign_def)
next
  case False
  then have "map (\<lambda>r. r c') (map (\<lambda>(r, v). r(c := v)) (zip (rows df) vs)) =
        map (\<lambda>r. r c') (map fst (zip (rows df) vs))"
    by (auto simp: comp_def split_def)
  with assms False show ?thesis by (simp add: col_vals_def assign_def)
qed

lemma length_rows_assign:
  "length vs = length (rows df) \<Longrightarrow> length (rows (assign df c vs)) = length (rows df)"
  by (simp add: assign_def)

lemma columns_assign: "c \<in> set (columns df) \<Longrightarrow> columns (assign df c vs) = columns df"
  by (simp add: assign_def)

lemma length_col_vals [simp]: "length (col_vals df c) = length (rows df)"
  by (simp add: col_vals_def)

lemma length_winsorize_col [simp]: "length (winsorize_col vs) = length vs"
  by (auto simp: winsorize_col_def Let_def split: option.splits)

lemma fold_winsorize_rows:
  "length (rows (fold (\<lambda>c d. assign d c (winsorize_col (col_vals d c))) cs d)) = length (rows d)"
  by (induction cs arbitrary: d) (simp_all add: length_rows_assign)

lemma fold_winsorize_columns:
  "set cs \<subseteq> set (columns d) \<Longrightarrow>
   columns (fold (\<lambda>c d. assign d c (winsorize_col (col_vals d c))) cs d) = columns d"
  by (induction cs arbitrary: d) (simp_all add: columns_assign)

lemma fold_winsorize_col_vals:
  "distinct cs \<Longrightarrow>
   col_vals (fold (\<lambda>c d. assign d c (winsorize_col (col_vals d c))) cs d) c =
     (if c \<in> set cs then winsorize_col (col_vals d c) else col_vals d c)"
proof (induction cs arbitrary: d)
  case Nil
  then show ?case by simp
next
  case (Cons a cs)
  then show ?case by (auto simp: col_vals_assign)
qed

lemma numeric_cols_subset: "set (numeric_cols df) \<subseteq> set (columns df)"
  by (auto simp: numeric_cols_def)

lemma distinct_numeric_cols: "distinct (columns df) \<Longrightarrow> distinct (numeric_cols df)"
  by (simp add: numeric_cols_def)

lemma columns_winsorize: "columns (winsorize df) = columns df"
  by (simp add: winsorize_def fold_winsorize_columns numeric_cols_subset)

lemma col_vals_winsorize:
  "distinct (columns df) \<Longrightarrow>
   col_vals (winsorize df) c =
     (if c \<in> set (numeric_cols df) then winsorize_col (col_vals df c) else col_vals df c)"
  by (simp add: winsorize_def fold_winsorize_col_vals distinct_numeric_cols)

lemma is_numeric_clip: "is_numeric (map (floor_at lo) (map (cap_at hi) vs)) = is_numeric vs"
  by (induction vs) (auto simp: is_numeric_def floor_at_def cap_at_def split: val.splits)

lemma winsorize_col_cases:
  "winsorize_col vs = vs \<or>
   (\<exists>lo hi. winsorize_col vs = map (floor_at lo) (map (cap_at hi) vs))"
  by (auto simp: winsorize_col_def Let_def split: option.splits)

lemma is_numeric_winsorize_col: "is_numeric (winsorize_col vs) = is_numeric vs"
  using winsorize_col_cases [of vs] is_numeric_clip [of _ _ vs] by auto

lemma numeric_cols_winsorize:
  assumes "distinct (columns df)"
  shows "numeric_cols (winsorize df) = numeric_cols df"
proof -
  have "is_numeric (col_vals (winsorize df) c) = is_numeric (col_vals df c)" for c
    by (simp add: col_vals_winsorize [OF assms] is_numeric_winsorize_col)
  then show ?thesis by (simp add: numeric_cols_def columns_winsorize)
qed

lemma length_nums_clip: "length (nums (map (floor_at lo) (map (cap_at hi) vs))) = length (nums vs)"
  by (induction vs) (auto simp: nums_def floor_at_def cap_at_def split: val.splits)

lemma winsorize_col_second:
  assumes p99: "quantile (99 / 100) (nums vs) = Some p99"
      and p01: "quantile (1 / 100) (nums vs) = Some p01"
  shows "p01 \<le> p99 \<and> winsorize_col vs = map (floor_at p01) (map (cap_at p99) vs) \<and>
    (\<exists>q01 q99. quantile (1 / 100) (nums (winsorize_col vs)) = Some q01 \<and>
        quantile (99 / 100) (nums (winsorize_col vs)) = Some q99 \<and>
        p01 \<le> q01 \<and> q01 \<le> q99 \<and> q99 \<le> p99 \<and>
        winsorize_col (winsorize_col vs) = map (floor_at q01) (map (cap_at q99) (winsorize_col vs)) \<and>
        (q01 = p01 \<and> q99 = p99 \<longrightarrow> winsorize_col (winsorize_col vs) = winsorize_col vs))"
proof -
  let ?ys = "winsorize_col vs"
  have le: "p01 \<le> p99" using quantile_mono [OF _ _ _ p01 p99] by simp
  have ys: "?ys = map (floor_at p01) (map (cap_at p99) vs)"
    using winsorize_col_clip [OF p99 p01] .
  from p99 have "nums vs \<noteq> []" by (auto simp: quantile_def split: if_splits)
  then have ne: "nums ?ys \<noteq> []"
    using length_nums_clip [of p01 p99 vs] unfolding ys by (metis length_0_conv)
  then obtain q01 q99 where q: "quantile (1 / 100) (nums ?ys) = Some q01"
    "quantile (99 / 100) (nums ?ys) = Some q99" by (simp add: quantile_def)
  have range: "\<forall>y\<in>set (nums ?ys). p01 \<le> y \<and> y \<le> p99"
  proof
    fix y assume "y \<in> set (nums ?ys)"
    then have "Num y \<in> set (map (floor_at p01) (map (cap_at p99) vs))"
      by (simp add: nums_mem ys)
    then show "p01 \<le> y \<and> y \<le> p99" by (rule clip_range [OF le])
  qed
  have b1: "p01 \<le> q01" using quantile_bounds [OF _ _ q(1) range] by simp
  have b2: "q99 \<le> p99" using quantile_bounds [OF _ _ q(2) range] by simp
  have b3: "q01 \<le> q99" using quantile_mono [OF _ _ _ q] by simp
  have zs: "winsorize_col ?ys = map (floor_at q01) (map (cap_at q99) ?ys)"
    using winsorize_col_clip [OF q(2) q(1)] .
  have same: "winsorize_col ?ys = ?ys" if "q01 = p01 \<and> q99 = p99"
  proof -
    have "map (floor_at p01) (map (cap_at p99) ?ys) = ?ys"
      using range by (intro clip_id) (simp add: nums_mem)
    with zs that show ?thesis by simp
  qed
  from le ys q b1 b2 b3 zs same show ?thesis by blast
qed


lemma three_values_numeric:
  "distinct (columns three_values)" "numeric_cols three_values = [''x'']"
  "col_vals three_values ''x'' = [Num 0, Num 1, Num 2]"
  by (simp_all add: three_values_def numeric_cols_def exclude_cols_def is_numeric_def
      col_vals_def mk_row_def)

lemma winsorize_col_012:
  "winsorize_col [Num 0, Num 1, Num 2] = [Num (1 / 50), Num 1, Num (99 / 50)]"
  by (simp add: winsorize_col_def nums_def std_def variance_def mean_def power2_eq_square
      quantile_def lerp_at_def Let_def cap_at_def floor_at_def)

lemma winsorize_col_012':
  "winsorize_col [Num (1 / 50), Num 1, Num (99 / 50)] =
     [Num (99 / 2500), Num 1, Num (4901 / 2500)]"
  by (simp add: winsorize_col_def nums_def std_def variance_def mean_def power2_eq_square
      quantile_def lerp_at_def Let_def cap_at_def floor_at_def)

text \<open>
  C5 as stated fails. On the column 0, 1, 2 the first pass clips to the percentiles
  0.02 and 1.98; the second pass recomputes them from the clipped column as 0.0396 and
  1.9604 and clips again.
\<close>

theorem winsorize_not_idempotent:
  "col_vals (winsorize three_values) ''x'' = [Num (1 / 50), Num 1, Num (99 / 50)] \<and>
   col_vals (winsorize (winsorize three_values)) ''x'' =
     [Num (99 / 2500), Num 1, Num (4901 / 2500)] \<and>
   winsorize (winsorize three_values) \<noteq> winsorize three_values"
proof -
  have one: "col_vals (winsorize three_values) ''x'' = [Num (1 / 50), Num 1, Num (99 / 50)]"
    by (simp add: col_vals_winsorize three_values_numeric winsorize_col_012)
  have d: "distinct (columns (winsorize three_values))"
    by (simp add: columns_winsorize three_values_numeric)
  have n: "numeric_cols (winsorize three_values) = [''x'']"
    by (simp add: numeric_cols_winsorize three_values_numeric)
  have two: "col_vals (winsorize (winsorize three_values)) ''x'' =
     [Num (99 / 2500), Num 1, Num (4901 / 2500)]"
    by (simp add: col_vals_winsorize [OF d] n one winsorize_col_012')
  have "col_vals (winsorize (winsorize three_values)) ''x'' \<noteq>
        col_vals (winsorize three_values) ''x''"
    unfolding one two by simp
  then have "winsorize (winsorize three_values) \<noteq> winsorize three_values" by auto
  with one two show ?thesis by simp
qed

text \<open>
  C5, amended. On a table with distinct column names, one pass leaves the columns it does
  not process (and those without any value) unchanged and clips every processed column to
  the closed range between the 1st and the 99th percentile of the column's values before
  the pass: values inside the range and missing cells stay as they are. A second pass
  clips the column to the percentiles recomputed from the clipped values; these lie
  inside the first range, so the second pass can move values further inward, and it
  returns the column of the first pass when the recomputed percentiles are the first
  ones.
\<close>

theorem winsorize_two_passes:
  assumes d: "distinct (columns df)"
  shows "columns (winsorize df) = columns df \<and>
    (c \<notin> set (numeric_cols df) \<or> nums (col_vals df c) = [] \<longrightarrow>
       col_vals (winsorize df) c = col_vals df c \<and>
       col_vals (winsorize (winsorize df)) c = col_vals df c) \<and>
    (c \<in> set (numeric_cols df) \<longrightarrow>
     quantile (1 / 100) (nums (col_vals df c)) = Some p01 \<longrightarrow>
     quantile (99 / 100) (nums (col_vals df c)) = Some p99 \<longrightarrow>
       p01 \<le> p99 \<and>
       col_vals (winsorize df) c = map (floor_at p01) (map (cap_at p99) (col_vals df c)) \<and>
       (\<exists>q01 q99.
          quantile (1 / 100) (nums (col_vals (winsorize df) c)) = Some q01 \<and>
          quantile (99 / 100) (nums (col_vals (winsorize df) c)) = Some q99 \<and>
          p01 \<le> q01 \<and> q01 \<le> q99 \<and> q99 \<le> p99 \<and>
          col_vals (winsorize (winsorize df)) c =
            map (floor_at q01) (map (cap_at q99) (col_vals (winsorize df) c)) \<and>
          (q01 = p01 \<and> q99 = p99 \<longrightarrow>
             col_vals (winsorize (winsorize df)) c = col_vals (winsorize df) c)))"
proof -
  have d': "distinct (columns (winsorize df))" using d by (simp add: columns_winsorize)
  have n': "numeric_cols (winsorize df) = numeric_cols df" by (rule numeric_cols_winsorize [OF d])
  have one: "col_vals (winsorize df) c =
     (if c \<in> set (numeric_cols df) then winsorize_col (col_vals df c) else col_vals df c)"
    by (rule col_vals_winsorize [OF d])
  have two: "col_vals (winsorize (winsorize df)) c =
     (if c \<in> set (numeric_cols df) then winsorize_col (col_vals (winsorize df) c)
      else col_vals (winsorize df) c)"
    using col_vals_winsorize [OF d', of c] by (simp add: n')
  have a: "col_vals (winsorize df) c = col_vals df c \<and>
       col_vals (winsorize (winsorize df)) c = col_vals df c"
    if "c \<notin> set (numeric_cols df) \<or> nums (col_vals df c) = []"
    using that one two by (auto simp: nums_Nil_winsorize)
  have b: "p01 \<le> p99 \<and>
       col_vals (winsorize df) c = map (floor_at p01) (map (cap_at p99) (col_vals df c)) \<and>
       (\<exists>q01 q99.
          quantile (1 / 100) (nums (col_vals (winsorize df) c)) = Some q01 \<and>
          quantile (99 / 100) (nums (col_vals (winsorize df) c)) = Some q99 \<and>
          p01 \<le> q01 \<and> q01 \<le> q99 \<and> q99 \<le> p99 \<and>
          col_vals (winsorize (winsorize df)) c =
            map (floor_at q01) (map (cap_at q99) (col_vals (winsorize df) c)) \<and>
          (q01 = p01 \<and> q99 = p99 \<longrightarrow>
             col_vals (winsorize (winsorize df)) c = col_vals (winsorize df) c))"
    if c: "c \<in> set (numeric_cols df)"
      and p01: "quantile (1 / 100) (nums (col_vals df c)) = Some p01"
      and p99: "quantile (99 / 100) (nums (col_vals df c)) = Some p99"
  proof -
    have ys: "col_vals (winsorize df) c = winsorize_col (col_vals df c)"
      using one c by simp
    have zs: "col_vals (winsorize (winsorize df)) c =
        winsorize_col (winsorize_col (col_vals df c))"
      using two c ys by simp
    show ?thesis unfolding zs ys by (rule winsorize_col_second [OF p99 p01])
  qed
  have cols: "columns (winsorize df) = columns df" by (rule columns_winsorize)
  from cols a b show ?thesis by blast
qed

theorem winsorize_two_passes_witness:
  "distinct (columns three_values) \<and> ''x'' \<in> set (numeric_cols three_values) \<and>
   quantile (1 / 100) (nums (col_vals three_values ''x'')) = Some (1 / 50) \<and>
   quantile (99 / 100) (nums (col_vals three_values ''x'')) = Some (99 / 50) \<and>
   col_vals (winsorize three_values) ''x'' =
     map (floor_at (1 / 50)) (map (cap_at (99 / 50)) (col_vals three_values ''x''))"
proof -
  have q: "quantile (1 / 100) (nums (col_vals three_values ''x'')) = Some (1 / 50)"
    "quantile (99 / 100) (nums (col_vals three_values ''x'')) = Some (99 / 50)"
    by (simp_all add: three_values_numeric nums_def quantile_def lerp_at_def Let_def)
  have c: "''x'' \<in> set (numeric_cols three_values)" by (simp add: three_values_numeric)
  from winsorize_two_passes [OF three_values_numeric(1), of "''x''" "1 / 50" "99 / 50"] q c
  have "col_vals (winsorize three_values) ''x'' =
     map (floor_at (1 / 50)) (map (cap_at (99 / 50)) (col_vals three_values ''x''))"
    by blast
  with q c three_values_numeric(1) show ?thesis by simp
qed

section \<open>Properties of the missing-value handler\<close>


lemma sorted_P: "sort_values [''country'', ''year''] panel_no_observation = panel_no_observation"
  by (simp add: sort_values_def panel_no_observation_def sort_rank_def mk_row_def)

lemma names:
  "name_has [''gdp'', ''population'', ''growth''] ''gdp_per_capita''"
  "\<not> name_has [''gdp'', ''population'', ''growth''] ''year''"
  "\<not> name_has [''modal'', ''transit'', ''rail'', ''fleet''] ''year''"
  by (simp_all add: name_has_def lower_def lower_char_def)

lemma imp_P: "col_vals (impute panel_no_observation) ''gdp_per_capita'' = [Num 1, Num 3, Null]"
  unfolding impute_def sorted_P Let_def
  by (simp add: panel_no_observation_def has_columns_def impute_column_def names
    time_invariant_vars_def smooth_trend_vars_def sparse_vars_def col_vals_def assign_def mk_row_def
    group_transform_def interpolate_both_def is_numeric_def upt_rec [of 0] upt_rec [of 1] upt_rec [of 2] upt_rec [of 3])


lemma length_fillna_mean [simp]: "length (fillna_mean vs) = length vs"
  by (simp add: fillna_mean_def split: list.splits)

lemma fillna_mean_id: "Null \<notin> set vs \<Longrightarrow> fillna_mean vs = vs"
proof -
  assume n: "Null \<notin> set vs"
  have "map (\<lambda>v. if v = Null then Num m else v) vs = vs" for m
    using n by (intro map_idI) auto
  then show ?thesis by (simp add: fillna_mean_def split: list.splits)
qed

lemma is_numeric_fillna_mean: "is_numeric (fillna_mean vs) = is_numeric vs"
  by (auto simp: fillna_mean_def is_numeric_def list_all_iff split: list.splits val.splits)

lemma numeric_no_nums:
  assumes "is_numeric vs" "nums vs = []"
  shows "set vs \<subseteq> {Null}"
proof
  fix v assume v: "v \<in> set vs"
  with assms(1) have "\<forall>s. v \<noteq> Str s" by (auto simp: is_numeric_def list_all_iff)
  moreover from assms(2) v have "\<forall>x. v \<noteq> Num x"
    using nums_nonempty by blast
  ultimately show "v \<in> {Null}" by (cases v) auto
qed

lemma fillna_mean_filled:
  assumes "is_numeric vs"
  shows "Null \<notin> set (fillna_mean vs) \<or> set (fillna_mean vs) \<subseteq> {Null}"
proof (cases "nums vs")
  case Nil
  with assms have "set vs \<subseteq> {Null}" by (rule numeric_no_nums)
  with Nil show ?thesis by (simp add: fillna_mean_def)
next
  case (Cons x xs)
  then show ?thesis by (auto simp: fillna_mean_def)
qed

lemma fold_fill_col_vals:
  "distinct cs \<Longrightarrow>
   col_vals (fold (\<lambda>c d. if Null \<in> set (col_vals d c)
                then assign d c (fillna_mean (col_vals d c)) else d) cs d) c =
     (if c \<in> set cs then fillna_mean (col_vals d c) else col_vals d c)"
proof (induction cs arbitrary: d)
  case Nil
  then show ?case by simp
next
  case (Cons a cs)
  then show ?case by (auto simp: col_vals_assign fillna_mean_id)
qed

lemma fold_fill_columns:
  "set cs \<subseteq> set (columns d) \<Longrightarrow>
   columns (fold (\<lambda>c d. if Null \<in> set (col_vals d c)
                then assign d c (fillna_mean (col_vals d c)) else d) cs d) = columns d"
  by (induction cs arbitrary: d) (simp_all add: columns_assign)

lemma columns_fill_remaining: "columns (fill_remaining d) = columns d"
  unfolding fill_remaining_def by (rule fold_fill_columns) auto

lemma col_vals_fill_remaining:
  assumes "distinct (columns d)"
  shows "col_vals (fill_remaining d) c =
     (if c \<in> set (columns d) \<and> is_numeric (col_vals d c)
      then fillna_mean (col_vals d c) else col_vals d c)"
  unfolding fill_remaining_def using assms by (simp add: fold_fill_col_vals)

lemma length_group_transform [simp]: "length (group_transform keys f vs) = length vs"
  by (simp add: group_transform_def)

lemma columns_impute_column:
  "col \<in> set (columns d) \<Longrightarrow> columns (impute_column col d) = columns d"
  by (simp add: impute_column_def columns_assign)

lemma fold_impute_columns:
  "set cs \<subseteq> set (columns d) \<Longrightarrow> columns (fold impute_column cs d) = columns d"
  by (induction cs arbitrary: d) (simp_all add: columns_impute_column)

lemma fold_ffill_columns:
  "set cs \<subseteq> set (columns d) \<Longrightarrow>
   columns (fold (\<lambda>c d. assign d c (interpolate_forward (ffill (col_vals d c)))) cs d) = columns d"
  by (induction cs arbitrary: d) (simp_all add: columns_assign)

lemma columns_impute: "columns (impute df) = columns df"
  by (simp add: impute_def Let_def fold_impute_columns fold_ffill_columns sort_values_def)

text \<open>
  C6, amended. On a table with distinct column names the handler keeps the columns, and
  every numeric column of its output is the column left by the per-country imputation
  with the cells still missing replaced by the mean of that column's values. So a numeric
  column ends without a missing cell, or missing in every row (when no row has a value):
  the rows of a country without any observation of a column are filled with the column
  mean and do not stay null.
\<close>

theorem missing_values_filled:
  assumes "distinct (columns df)"
  shows "columns (handle_missing_values df) = columns df \<and>
    (c \<in> set (columns df) \<longrightarrow> is_numeric (col_vals (handle_missing_values df) c) \<longrightarrow>
       col_vals (handle_missing_values df) c = fillna_mean (col_vals (impute df) c) \<and>
       (Null \<notin> set (col_vals (handle_missing_values df) c) \<or>
        set (col_vals (handle_missing_values df) c) \<subseteq> {Null}))"
proof -
  have d: "distinct (columns (impute df))" using assms by (simp add: columns_impute)
  note cv = col_vals_fill_remaining [OF d, of c]
  have cols: "columns (handle_missing_values df) = columns df"
    by (simp add: handle_missing_values_def columns_fill_remaining columns_impute)
  have main: "col_vals (handle_missing_values df) c = fillna_mean (col_vals (impute df) c) \<and>
       (Null \<notin> set (col_vals (handle_missing_values df) c) \<or>
        set (col_vals (handle_missing_values df) c) \<subseteq> {Null})"
    if c: "c \<in> set (columns df)" and n: "is_numeric (col_vals (handle_missing_values df) c)"
  proof -
    have num: "is_numeric (col_vals (impute df) c)"
    proof (rule ccontr)
      assume "\<not> is_numeric (col_vals (impute df) c)"
      then have "col_vals (handle_missing_values df) c = col_vals (impute df) c"
        using cv by (simp add: handle_missing_values_def)
      with n \<open>\<not> is_numeric (col_vals (impute df) c)\<close> show False by simp
    qed
    with c have eq: "col_vals (handle_missing_values df) c = fillna_mean (col_vals (impute df) c)"
      using cv by (simp add: handle_missing_values_def columns_impute)
    show ?thesis unfolding eq using fillna_mean_filled [OF num] by simp
  qed
  from cols main show ?thesis by blast
qed

text \<open>
  C6 as stated fails. Country B has no observation of \<open>gdp_per_capita\<close>; the handler
  gives its row the mean 2 of country A's values 1 and 3.
\<close>

theorem country_without_observation_filled:
  "col_vals panel_no_observation ''country'' = [Str ''A'', Str ''A'', Str ''B''] \<and>
   col_vals panel_no_observation ''gdp_per_capita'' = [Num 1, Num 3, Null] \<and>
   col_vals (handle_missing_values panel_no_observation) ''gdp_per_capita'' =
     [Num 1, Num 3, Num 2]"
proof -
  have d: "distinct (columns (impute panel_no_observation))"
    by (simp add: columns_impute panel_no_observation_def)
  have c: "''gdp_per_capita'' \<in> set (columns (impute panel_no_observation))"
    by (simp add: columns_impute panel_no_observation_def)
  have "col_vals (handle_missing_values panel_no_observation) ''gdp_per_capita'' =
     fillna_mean [Num 1, Num 3, Null]"
    using c by (simp add: handle_missing_values_def col_vals_fill_remaining [OF d] imp_P
        is_numeric_def)
  also have "\<dots> = [Num 1, Num 3, Num 2]"
    by (simp add: fillna_mean_def nums_def mean_def)
  finally show ?thesis
    by (simp add: col_vals_def panel_no_observation_def mk_row_def)
qed

theorem missing_values_filled_witness:
  "distinct (columns panel_no_observation) \<and>
   ''gdp_per_capita'' \<in> set (columns panel_no_observation) \<and>
   is_numeric (col_vals (handle_missing_values panel_no_observation) ''gdp_per_capita'') \<and>
   col_vals (handle_missing_values panel_no_observation) ''gdp_per_capita'' =
     fillna_mean [Num 1, Num 3, Null] \<and>
   Null \<notin> set (col_vals (handle_missing_values panel_no_observation) ''gdp_per_capita'')"
proof -
  have d: "distinct (columns panel_no_observation)"
    and c: "''gdp_per_capita'' \<in> set (columns panel_no_observation)"
    by (simp_all add: panel_no_observation_def)
  have d': "distinct (columns (impute panel_no_observation))"
    using d by (simp add: columns_impute)
  have v: "col_vals (handle_missing_values panel_no_observation) ''gdp_per_capita'' =
     [Num 1, Num 3, Num 2]"
    using c by (simp add: handle_missing_values_def col_vals_fill_remaining [OF d'] imp_P
        is_numeric_def columns_impute fillna_mean_def nums_def mean_def)
  then have n: "is_numeric (col_vals (handle_missing_values panel_no_observation) ''gdp_per_capita'')"
    by (simp add: is_numeric_def)
  from missing_values_filled [OF d, of "''gdp_per_capita''"] c n
  have "col_vals (handle_missing_values panel_no_observation) ''gdp_per_capita'' =
     fillna_mean (col_vals (impute panel_no_observation) ''gdp_per_capita'')" by blast
  with d c n v show ?thesis by (simp add: imp_P)
qed

section \<open>Properties of the panel merger\<close>


lemma filter_key_le_1:
  "distinct (map f xs) \<Longrightarrow> length (filter (\<lambda>x. f x = a) xs) \<le> 1"
proof (induction xs)
  case Nil
  then show ?case by simp
next
  case (Cons x xs)
  show ?case
  proof (cases "f x = a")
    case True
    with Cons.prems have "a \<notin> f ` set xs" by auto
    then have "filter (\<lambda>x. f x = a) xs = []" by (auto simp: filter_empty_conv)
    with True show ?thesis by simp
  next
    case False
    with Cons show ?thesis by simp
  qed
qed

lemma matches_le_1:
  assumes "unique_on on right"
  shows "length (matches on l right) \<le> 1"
proof -
  have "matches on l right = filter (\<lambda>r. map r on = map l on) (rows right)"
    unfolding matches_def by (rule filter_cong) (auto simp: list_all_iff)
  with filter_key_le_1 [of "\<lambda>r. map r on" "rows right" "map l on"] assms
  show ?thesis by (simp add: unique_on_def)
qed

lemma join_rows_left: "c \<in> set lcols \<Longrightarrow> join_rows lcols sfx rcols l r c = l c"
  by (simp add: join_rows_def)

lemma merge_left_keys:
  assumes u: "unique_on on right" and k: "set ks \<subseteq> set (columns left)"
  shows "map (\<lambda>r. map r ks) (rows (merge_left on sfx left right)) =
         map (\<lambda>r. map r ks) (rows left)"
proof -
  let ?rc = "filter (\<lambda>c. c \<notin> set on) (columns right)"
  let ?j = "join_rows (columns left) sfx ?rc"
  let ?F = "\<lambda>l. case matches on l right of [] \<Rightarrow> [?j l (\<lambda>c. Null)] | ms \<Rightarrow> map (?j l) ms"
  have key: "map (?j l r) ks = map l ks" for l r
    using k by (auto simp: join_rows_left)
  have one: "map (\<lambda>r. map r ks) (?F l) = [map l ks]" for l
  proof (cases "matches on l right")
    case Nil
    then show ?thesis by (simp add: key)
  next
    case (Cons m ms)
    with matches_le_1 [OF u, of l] have "ms = []" by simp
    with Cons show ?thesis by (simp add: key)
  qed
  have "map (\<lambda>r. map r ks) (concat (map ?F ls)) = map (\<lambda>r. map r ks) ls" for ls
    by (induction ls) (simp_all add: one)
  then show ?thesis by (simp add: merge_left_def Let_def)
qed

lemma columns_merge_left:
  "set (columns left) \<subseteq> set (columns (merge_left on sfx left right))"
  by (simp add: merge_left_def Let_def)

lemma has_columns_iff: "has_columns df cs \<longleftrightarrow> set cs \<subseteq> set (columns df)"
  by (auto simp: has_columns_def list_all_iff)

lemma merge_on_keys:
  assumes "merge_on on sfx right df = Inr df'" "unique_on on right" "has_columns df ks"
  shows "has_columns df' ks \<and> map (\<lambda>r. map r ks) (rows df') = map (\<lambda>r. map r ks) (rows df)"
proof -
  from assms(1) have df': "df' = merge_left on sfx df right"
    by (auto simp: merge_on_def split: if_splits)
  from assms(3) have k: "set ks \<subseteq> set (columns df)" by (simp add: has_columns_iff)
  with columns_merge_left [of df on sfx right] have "has_columns df' ks"
    unfolding df' has_columns_iff by blast
  with merge_left_keys [OF assms(2) k] show ?thesis by (simp add: df')
qed

lemma merge_file_keys:
  assumes "merge_file sfx file df = Inr df'" "unique_or_absent [''country'', ''year''] file"
    "has_columns df ks"
  shows "has_columns df' ks \<and> map (\<lambda>r. map r ks) (rows df') = map (\<lambda>r. map r ks) (rows df)"
proof (cases "file")
  case None
  with assms show ?thesis by (simp add: merge_file_def)
next
  case (Some right)
  with assms merge_on_keys [of "[''country'', ''year'']" sfx right df df' ks] show ?thesis
    by (simp add: merge_file_def unique_or_absent_def)
qed

lemma merge_congestion_keys:
  assumes "merge_congestion src df = Inr df'"
    "case congestion_comprehensive src of
         Some c \<Rightarrow> unique_on [''country'', ''year''] c
       | None \<Rightarrow> unique_or_absent [''country'', ''year''] (tomtom src)"
    "has_columns df ks"
  shows "has_columns df' ks \<and> map (\<lambda>r. map r ks) (rows df') = map (\<lambda>r. map r ks) (rows df)"
proof (cases "congestion_comprehensive src")
  case (Some c)
  with assms merge_on_keys [of "[''country'', ''year'']" "''_congestion''" c df df' ks] show ?thesis
    by (simp add: merge_congestion_def)
next
  case None
  show ?thesis
  proof (cases "tomtom src")
    case None
    with assms \<open>congestion_comprehensive src = None\<close> show ?thesis
      by (simp add: merge_congestion_def)
  next
    case (Some t)
    with assms None merge_on_keys [of "[''country'', ''year'']" "''_tomtom''" t df df' ks]
    show ?thesis by (simp add: merge_congestion_def unique_or_absent_def)
  qed
qed

lemma distinct_groupby_keys: "distinct (groupby_keys by df)"
  by (simp add: groupby_keys_def)

lemma length_groupby_keys: "k \<in> set (groupby_keys by df) \<Longrightarrow> length k = length by"
  by (auto simp: groupby_keys_def)

lemma unique_groupby_mean:
  "unique_on [''country'', ''year''] (groupby_mean [''country'', ''year''] cols df)"
proof -
  let ?by = "[''country'', ''year'']"
  let ?row = "\<lambda>k c. case map_of (zip ?by k) c of
                         Some v \<Rightarrow> v
                       | None \<Rightarrow> if c \<in> set cols
                                 then series_mean (map (\<lambda>r. r c) (group_rows ?by df k))
                                 else Null"
  have "map (?row k) ?by = k" if "k \<in> set (groupby_keys ?by df)" for k
  proof -
    from length_groupby_keys [OF that] obtain a b where "k = [a, b]"
      by (cases k; cases "tl k") auto
    then show ?thesis by simp
  qed
  then have "map (\<lambda>r. map r ?by) (map ?row (groupby_keys ?by df)) = groupby_keys ?by df"
    by (simp add: map_idI)
  then show ?thesis
    unfolding unique_on_def groupby_mean_def using distinct_groupby_keys [of ?by df] by simp
qed

lemma merge_uitp_keys:
  assumes "merge_uitp src df = Inr df'"
    "case uitp src of
         Some u \<Rightarrow> ''city'' \<in> set (columns u) \<or> unique_on [''country'', ''year''] u
       | None \<Rightarrow> True"
    "has_columns df ks"
  shows "has_columns df' ks \<and> map (\<lambda>r. map r ks) (rows df') = map (\<lambda>r. map r ks) (rows df)"
proof (cases "uitp src")
  case None
  with assms show ?thesis by (simp add: merge_uitp_def)
next
  case (Some u)
  with assms(1) obtain uc where uc: "uitp_country u = Inr uc"
    and m: "merge_on [''country'', ''year''] ''_uitp'' uc df = Inr df'"
    by (auto simp: merge_uitp_def and_then_def split: sum.splits)
  have "unique_on [''country'', ''year''] uc"
  proof (cases "''city'' \<in> set (columns u)")
    case True
    with uc have "uc = groupby_mean [''country'', ''year''] modal_columns u"
      by (auto simp: uitp_country_def split: if_splits)
    then show ?thesis by (simp add: unique_groupby_mean)
  next
    case False
    with uc assms(2) Some show ?thesis by (simp add: uitp_country_def)
  qed
  from merge_on_keys [OF m this assms(3)] show ?thesis .
qed

lemma unique_on_drop_column:
  "c \<notin> set on \<Longrightarrow> unique_on on (drop_column c df) = unique_on on df"
proof -
  assume c: "c \<notin> set on"
  have "map (r(c := Null)) on = map r on" for r :: row
    using c by (induction on) auto
  then have "(\<lambda>r::row. map (r(c := Null)) on) = (\<lambda>r. map r on)" by blast
  then show ?thesis by (simp add: unique_on_def drop_column_def comp_def)
qed

lemma merge_overpass_keys:
  assumes "merge_overpass src df = Inr df'"
    "case overpass src of
         Some ov \<Rightarrow> if ''year'' \<in> set (columns ov) then unique_on [''country'', ''year''] ov
                    else unique_on [''country''] ov
       | None \<Rightarrow> True"
    "has_columns df ks"
  shows "has_columns df' ks \<and> map (\<lambda>r. map r ks) (rows df') = map (\<lambda>r. map r ks) (rows df)"
proof (cases "overpass src")
  case None
  with assms show ?thesis by (simp add: merge_overpass_def)
next
  case (Some ov)
  show ?thesis
  proof (cases "''year'' \<in> set (columns ov)")
    case True
    with assms Some merge_on_keys [of "[''country'', ''year'']" "''_overpass''" ov df df' ks]
    show ?thesis by (simp add: merge_overpass_def)
  next
    case False
    have "unique_on [''country''] (drop_column ''note'' ov)"
      using assms(2) Some False by (simp add: unique_on_drop_column)
    with assms(1,3) Some False
      merge_on_keys [of "[''country'']" "''_overpass''" "drop_column ''note'' ov" df df' ks]
    show ?thesis by (simp add: merge_overpass_def)
  qed
qed

lemma merge_sources_keys:
  assumes m: "merge_sources base src = Inr df" and u: "sources_unique src"
    and h: "has_columns base ks"
  shows "has_columns df ks \<and> map (\<lambda>r. map r ks) (rows df) = map (\<lambda>r. map r ks) (rows base)"
proof -
  from m obtain d1 d2 d3 d4 d5 d6 d7 where
    s1: "merge_congestion src base = Inr d1" and
    s2: "merge_uitp src d1 = Inr d2" and
    s3: "merge_file ''_psa'' (psa src) d2 = Inr d3" and
    s4: "merge_file ''_openaq'' (openaq src) d3 = Inr d4" and
    s5: "merge_overpass src d4 = Inr d5" and
    s6: "merge_file ''_ltfrb'' (ltfrb src) d5 = Inr d6" and
    s7: "merge_file ''_jica'' (jica src) d6 = Inr d7" and
    s8: "merge_file ''_adb'' (adb src) d7 = Inr df"
    unfolding merge_sources_def and_then_def by (simp split: sum.splits)
  from u have u1: "case congestion_comprehensive src of
         Some c \<Rightarrow> unique_on [''country'', ''year''] c
       | None \<Rightarrow> unique_or_absent [''country'', ''year''] (tomtom src)"
    and u2: "case uitp src of
         Some u \<Rightarrow> ''city'' \<in> set (columns u) \<or> unique_on [''country'', ''year''] u
       | None \<Rightarrow> True"
    and u3: "unique_or_absent [''country'', ''year''] (psa src)"
    and u4: "unique_or_absent [''country'', ''year''] (openaq src)"
    and u5: "case overpass src of
         Some ov \<Rightarrow> if ''year'' \<in> set (columns ov) then unique_on [''country'', ''year''] ov
                    else unique_on [''country''] ov
       | None \<Rightarrow> True"
    and u6: "unique_or_absent [''country'', ''year''] (ltfrb src)"
    and u7: "unique_or_absent [''country'', ''year''] (jica src)"
    and u8: "unique_or_absent [''country'', ''year''] (adb src)"
    by (simp_all add: sources_unique_def)
  note k1 = merge_congestion_keys [OF s1 u1 h]
  note k2 = merge_uitp_keys [OF s2 u2 k1 [THEN conjunct1]]
  note k3 = merge_file_keys [OF s3 u3 k2 [THEN conjunct1]]
  note k4 = merge_file_keys [OF s4 u4 k3 [THEN conjunct1]]
  note k5 = merge_overpass_keys [OF s5 u5 k4 [THEN conjunct1]]
  note k6 = merge_file_keys [OF s6 u6 k5 [THEN conjunct1]]
  note k7 = merge_file_keys [OF s7 u7 k6 [THEN conjunct1]]
  note k8 = merge_file_keys [OF s8 u8 k7 [THEN conjunct1]]
  from k1 k2 k3 k4 k5 k6 k7 k8 show ?thesis by simp
qed


lemma assign_keys:
  assumes "c \<notin> set ks" "length vs = length (rows df)"
  shows "map (\<lambda>r. map r ks) (rows (assign df c vs)) = map (\<lambda>r. map r ks) (rows df)"
proof -
  have "map (r(c := v)) ks = map r ks" for r :: row and v
    using assms(1) by (induction ks) auto
  then have "map (\<lambda>r. map r ks) (map (\<lambda>(r, v). r(c := v)) (zip (rows df) vs)) =
        map (\<lambda>r. map r ks) (map fst (zip (rows df) vs))"
    by (simp add: comp_def split_def)
  with assms(2) show ?thesis by (simp add: assign_def)
qed

lemma columns_assign_subset: "set (columns df) \<subseteq> set (columns (assign df c vs))"
  by (auto simp: assign_def)

lemma transit_investment_keys:
  assumes "''transit_investment_gdp'' \<notin> set ks"
  shows "map (\<lambda>r. map r ks) (rows (transit_investment df)) = map (\<lambda>r. map r ks) (rows df)"
  using assms by (simp add: transit_investment_def assign_keys)

lemma columns_transit_investment:
  "set (columns df) \<subseteq> set (columns (transit_investment df))"
  using columns_assign_subset by (simp add: transit_investment_def)

lemma sort_values_keys:
  "mset (map f (rows (sort_values cs df))) = mset (map f (rows df))"
proof -
  have "mset (rows (sort_values cs df)) = mset (rows df)"
    by (simp add: sort_values_def)
  then show ?thesis by (metis mset_map)
qed

lemma lagged_keys:
  assumes "''transit_invest_lag1'' \<notin> set ks"
  shows "mset (map (\<lambda>r. map r ks) (rows (lagged df))) = mset (map (\<lambda>r. map r ks) (rows df))"
proof -
  let ?s = "sort_values [''country'', ''year''] df"
  have len: "length (group_shift (col_vals ?s ''country'') (col_vals ?s ''transit_investment_gdp''))
      = length (rows ?s)"
    by (simp add: group_shift_def)
  have "map (\<lambda>r. map r ks) (rows (lagged df)) = map (\<lambda>r. map r ks) (rows ?s)"
    using assign_keys [OF assms len] by (simp add: lagged_def Let_def)
  then have "mset (map (\<lambda>r. map r ks) (rows (lagged df))) =
      mset (map (\<lambda>r. map r ks) (rows ?s))"
    by (rule arg_cong)
  also have "\<dots> = mset (map (\<lambda>r. map r ks) (rows df))"
    by (rule sort_values_keys)
  finally show ?thesis .
qed

lemma columns_lagged: "set (columns df) \<subseteq> set (columns (lagged df))"
proof -
  have "columns (sort_values [''country'', ''year''] df) = columns df"
    by (simp add: sort_values_def)
  then show ?thesis
    using columns_assign_subset [of "sort_values [''country'', ''year''] df"]
    by (auto simp: lagged_def Let_def)
qed

lemma rename_column_keys:
  assumes "old_name \<notin> set ks" "new_name \<notin> set ks"
  shows "map (\<lambda>r. map r ks) (rows (rename_column old_name new_name df)) =
         map (\<lambda>r. map r ks) (rows df)"
proof -
  have "map ((r(new_name := v))(old_name := w)) ks = map r ks" for r :: row and v w
    using assms by (induction ks) auto
  then show ?thesis by (simp add: rename_column_def comp_def)
qed

lemma rename_column_columns:
  assumes "old_name \<notin> set ks" "set ks \<subseteq> set (columns df)"
  shows "set ks \<subseteq> set (columns (rename_column old_name new_name df))"
  using assms by (auto simp: rename_column_def)

lemma fold_rename_keys:
  assumes "\<forall>(a, b)\<in>set ps. a \<notin> set ks \<and> b \<notin> set ks" "set ks \<subseteq> set (columns d)"
  shows "map (\<lambda>r. map r ks)
           (rows (fold (\<lambda>(old_name, new_name) d.
             if old_name \<in> set (columns d) \<and> new_name \<notin> set (columns d)
             then rename_column old_name new_name d else d) ps d)) =
         map (\<lambda>r. map r ks) (rows d) \<and>
         set ks \<subseteq> set (columns (fold (\<lambda>(old_name, new_name) d.
             if old_name \<in> set (columns d) \<and> new_name \<notin> set (columns d)
             then rename_column old_name new_name d else d) ps d))"
  using assms
proof (induction ps arbitrary: d)
  case Nil
  then show ?case by simp
next
  case (Cons p ps)
  obtain a b where p: "p = (a, b)" by (cases p)
  let ?d = "if a \<in> set (columns d) \<and> b \<notin> set (columns d) then rename_column a b d else d"
  from Cons.prems p have on: "a \<notin> set ks" "b \<notin> set ks" by auto
  have k: "map (\<lambda>r. map r ks) (rows ?d) = map (\<lambda>r. map r ks) (rows d)"
    using rename_column_keys [OF on] by simp
  have c: "set ks \<subseteq> set (columns ?d)"
    using rename_column_columns [OF on(1) Cons.prems(2)] Cons.prems(2) by simp
  from Cons.prems(1) have "\<forall>(a, b)\<in>set ps. a \<notin> set ks \<and> b \<notin> set ks" by simp
  from Cons.IH [OF this c] k show ?case by (simp add: p)
qed

lemma standardize_names_keys:
  assumes "set ks \<subseteq> set (columns d)"
    "set ks \<inter> (fst ` set rename_map \<union> snd ` set rename_map) = {}"
  shows "map (\<lambda>r. map r ks) (rows (standardize_names d)) = map (\<lambda>r. map r ks) (rows d) \<and>
         set ks \<subseteq> set (columns (standardize_names d))"
proof -
  have "a \<notin> set ks \<and> b \<notin> set ks" if "(a, b) \<in> set rename_map" for a b
  proof -
    from that have "a \<in> fst ` set rename_map" "b \<in> snd ` set rename_map" by force+
    with assms(2) show ?thesis by blast
  qed
  then have "\<forall>(a, b)\<in>set rename_map. a \<notin> set ks \<and> b \<notin> set ks" by blast
  from fold_rename_keys [OF this assms(1)] show ?thesis by (simp add: standardize_names_def)
qed

lemma fold_ensure_keys:
  assumes "set ks \<subseteq> set (columns d)"
  shows "map (\<lambda>r. map r ks)
           (rows (fold (\<lambda>col d. if col \<notin> set (columns d)
                  then assign d col (replicate (length (rows d)) Null) else d) cs d)) =
         map (\<lambda>r. map r ks) (rows d) \<and>
         set ks \<subseteq> set (columns (fold (\<lambda>col d. if col \<notin> set (columns d)
                  then assign d col (replicate (length (rows d)) Null) else d) cs d))"
  using assms
proof (induction cs arbitrary: d)
  case Nil
  then show ?case by simp
next
  case (Cons c cs)
  let ?d = "if c \<notin> set (columns d) then assign d c (replicate (length (rows d)) Null) else d"
  have k: "map (\<lambda>r. map r ks) (rows ?d) = map (\<lambda>r. map r ks) (rows d)"
  proof (cases "c \<in> set (columns d)")
    case True
    then show ?thesis by simp
  next
    case False
    with Cons.prems have "c \<notin> set ks" by auto
    from assign_keys [OF this] False show ?thesis by simp
  qed
  have c: "set ks \<subseteq> set (columns ?d)"
    using Cons.prems columns_assign_subset [of d c] by auto
  from Cons.IH [OF c] k show ?case by simp
qed

lemma ensure_columns_keys:
  assumes "set ks \<subseteq> set (columns d)"
  shows "map (\<lambda>r. map r ks) (rows (ensure_columns d)) = map (\<lambda>r. map r ks) (rows d)"
  using fold_ensure_keys [OF assms] by (simp add: ensure_columns_def)

lemma select_columns_keys:
  assumes "set ks \<subseteq> set cols"
  shows "map (\<lambda>r. map r ks) (rows (select_columns cols d)) = map (\<lambda>r. map r ks) (rows d)"
proof -
  have "map (\<lambda>c. if c \<in> set cols then r c else Null) ks = map r ks" for r :: row
    using assms by (induction ks) auto
  then show ?thesis by (simp add: select_columns_def comp_def)
qed

lemma finish_panel_keys:
  assumes c: "set ks \<subseteq> set (columns (transit_investment df))"
    and r: "set ks \<inter> (fst ` set rename_map \<union> snd ` set rename_map) = {}"
    and l: "''transit_invest_lag1'' \<notin> set ks"
    and f: "set ks \<subseteq> set final_columns"
  shows "mset (map (\<lambda>r. map r ks) (rows (finish_panel df))) =
         mset (map (\<lambda>r. map r ks) (rows (transit_investment df)))"
proof -
  let ?t = "transit_investment df"
  have c1: "set ks \<subseteq> set (columns (lagged ?t))" using c columns_lagged by blast
  note s = standardize_names_keys [OF c1 r]
  note e = ensure_columns_keys [OF s [THEN conjunct2]]
  note sel = select_columns_keys [OF f, of "ensure_columns (standardize_names (lagged ?t))"]
  show ?thesis
    unfolding finish_panel_def sel e s [THEN conjunct1] by (rule lagged_keys [OF l])
qed


lemma unique_on_panel_key:
  "unique_on [''country'', ''year''] df \<longleftrightarrow> distinct (map panel_key (rows df))"
proof -
  have eq: "map (\<lambda>r. map r [''country'', ''year'']) (rows df) =
        map (\<lambda>(a, b). [a, b]) (map panel_key (rows df))"
    by (simp add: panel_key_def)
  have inj: "inj_on (\<lambda>(a, b). [a, b]) A" for A :: "(val \<times> val) set"
    by (auto simp: inj_on_def)
  have "distinct (map (\<lambda>(a, b). [a, b]) (map panel_key (rows df))) =
        distinct (map panel_key (rows df))"
    using inj by (simp only: distinct_map) simp
  then show ?thesis unfolding unique_on_def eq .
qed

lemma mset_panel_key:
  assumes "mset (map (\<lambda>r. map r [''country'', ''year'']) xs) =
           mset (map (\<lambda>r. map r [''country'', ''year'']) ys)"
  shows "mset (map panel_key xs) = mset (map panel_key ys)"
proof -
  have "map panel_key zs = map (\<lambda>k. (k ! 0, k ! 1)) (map (\<lambda>r. map r [''country'', ''year'']) zs)"
    for zs by (simp add: panel_key_def)
  then have e: "mset (map panel_key zs) =
      image_mset (\<lambda>k. (k ! 0, k ! 1)) (mset (map (\<lambda>r. map r [''country'', ''year'']) zs))"
    for zs by (simp only: mset_map)
  show ?thesis unfolding e assms ..
qed

lemma key_columns_free:
  "set [''country'', ''year''] \<inter> (fst ` set rename_map \<union> snd ` set rename_map) = {}"
  "''transit_invest_lag1'' \<notin> set [''country'', ''year'']"
  "set [''country'', ''year''] \<subseteq> set final_columns"
  "''transit_investment_gdp'' \<notin> set [''country'', ''year'']"
  by (simp_all add: rename_map_def final_columns_def)

text \<open>
  C4. When the base panel has the columns country and year with unique (country, year)
  keys, and every table the script joins onto it has unique join keys, the clean panel the
  script saves has pairwise different (country, year) keys: the left joins neither
  duplicate nor drop a base row, so the keys of the clean panel are exactly those of the
  base panel.
\<close>

theorem final_panel_keys_unique:
  assumes base: "has_columns base [''country'', ''year'']"
    and uniq: "distinct (map panel_key (rows base))"
    and srcs: "sources_unique src"
    and run: "merge_panel base src = Inr df_clean"
  shows "distinct (map panel_key (rows df_clean)) \<and>
         mset (map panel_key (rows df_clean)) = mset (map panel_key (rows base))"
proof -
  let ?ks = "[''country'', ''year'']"
  from run obtain df where m: "merge_sources base src = Inr df"
    and out: "df_clean = finish_panel df"
    by (auto simp: merge_panel_def and_then_def split: sum.splits if_splits)
  from merge_sources_keys [OF m srcs base]
  have h: "has_columns df ?ks"
    and k: "map (\<lambda>r. map r ?ks) (rows df) = map (\<lambda>r. map r ?ks) (rows base)" by simp_all
  have c: "set ?ks \<subseteq> set (columns (transit_investment df))"
    using h columns_transit_investment [of df] unfolding has_columns_iff by blast
  have "mset (map (\<lambda>r. map r ?ks) (rows df_clean)) =
        mset (map (\<lambda>r. map r ?ks) (rows (transit_investment df)))"
    unfolding out by (rule finish_panel_keys [OF c key_columns_free(1,2,3)])
  also have "\<dots> = mset (map (\<lambda>r. map r ?ks) (rows base))"
    using transit_investment_keys [OF key_columns_free(4), of df] k by simp
  finally have "mset (map panel_key (rows df_clean)) = mset (map panel_key (rows base))"
    by (rule mset_panel_key)
  moreover from mset_eq_imp_distinct_iff [OF this] uniq
  have "distinct (map panel_key (rows df_clean))" by blast
  ultimately show ?thesis by simp
qed

lemma investment_column_free:
  "set [''transit_investment_gdp''] \<inter> (fst ` set rename_map \<union> snd ` set rename_map) = {}"
  "''transit_invest_lag1'' \<notin> set [''transit_investment_gdp'']"
  "set [''transit_investment_gdp''] \<subseteq> set final_columns"
  by (simp_all add: rename_map_def final_columns_def)

lemma mset_replicate_eq:
  assumes "mset xs = mset (replicate n a)"
  shows "xs = replicate n a"
proof (rule replicate_eqI)
  from mset_eq_length [OF assms] show "length xs = n" by simp
  fix y assume "y \<in> set xs"
  with mset_eq_setD [OF assms] have "y \<in> set (replicate n a)" by simp
  then show "y = a" by simp
qed

text \<open>
  C10. When, after the joins, the table has no \<open>transit_investment_gdp\<close> column or only
  missing cells in it, and neither \<open>adb_loan_amount\<close> with \<open>gdp_current_usd\<close> nor
  \<open>road_length_km\<close> with \<open>gdp_current_usd\<close> are among its columns, the script completes
  and the saved clean panel has the column \<open>transit_investment_gdp\<close> with the number 0
  in every row.
\<close>

theorem transit_investment_zero:
  assumes m: "merge_sources base src = Inr df"
    and h: "has_columns df [''country'', ''year'']"
    and absent: "''transit_investment_gdp'' \<notin> set (columns df) \<or>
         list_all (\<lambda>v. v = Null) (col_vals df ''transit_investment_gdp'')"
    and no_adb: "\<not> (''adb_loan_amount'' \<in> set (columns df) \<and> ''gdp_current_usd'' \<in> set (columns df))"
    and no_road: "\<not> (''road_length_km'' \<in> set (columns df) \<and> ''gdp_current_usd'' \<in> set (columns df))"
  shows "merge_panel base src = Inr (finish_panel df) \<and>
         ''transit_investment_gdp'' \<in> set (columns (finish_panel df)) \<and>
         col_vals (finish_panel df) ''transit_investment_gdp'' =
           replicate (length (rows df)) (Num 0)"
proof -
  let ?c = "''transit_investment_gdp''" and ?n = "length (rows df)"
  from no_adb have a: "(''adb_loan_amount'' \<in> set (columns df) \<and>
      ''gdp_current_usd'' \<in> set (columns df)) = False" by simp
  from no_road have b: "(''road_length_km'' \<in> set (columns df) \<and>
      ''gdp_current_usd'' \<in> set (columns df)) = False" by simp
  from absent have ab: "(?c \<notin> set (columns df) \<or>
      list_all (\<lambda>v. v = Null) (col_vals df ?c)) = True" by simp
  have t: "transit_investment df = assign df ?c (replicate ?n (Num 0))"
    by (simp only: transit_investment_def a b ab if_True if_False)
  have cv: "col_vals (transit_investment df) ?c = replicate ?n (Num 0)"
    unfolding t by (simp add: col_vals_assign)
  have "map (\<lambda>r. map r [?c]) (rows (transit_investment df)) =
        map (\<lambda>v. [v]) (col_vals (transit_investment df) ?c)"
    by (simp add: col_vals_def)
  then have v: "map (\<lambda>r. map r [?c]) (rows (transit_investment df)) = replicate ?n [Num 0]"
    unfolding cv by simp
  have c: "set [?c] \<subseteq> set (columns (transit_investment df))"
    unfolding t by (simp add: assign_def)
  have "mset (map (\<lambda>r. map r [?c]) (rows (finish_panel df))) =
        mset (map (\<lambda>r. map r [?c]) (rows (transit_investment df)))"
    by (rule finish_panel_keys [OF c investment_column_free])
  then have "mset (map (\<lambda>r. map r [?c]) (rows (finish_panel df))) = mset (replicate ?n [Num 0])"
    by (simp only: v)
  then have "map (\<lambda>r. map r [?c]) (rows (finish_panel df)) = replicate ?n [Num 0]"
    by (rule mset_replicate_eq)
  then have "map hd (map (\<lambda>r. map r [?c]) (rows (finish_panel df))) = map hd (replicate ?n [Num 0])"
    by simp
  then have vals: "col_vals (finish_panel df) ?c = replicate ?n (Num 0)"
    by (simp add: col_vals_def comp_def)
  have cols: "?c \<in> set (columns (finish_panel df))"
    by (simp add: finish_panel_def select_columns_def final_columns_def)
  have "merge_panel base src = Inr (finish_panel df)"
    using m h by (simp add: merge_panel_def and_then_def)
  with cols vals show ?thesis by simp
qed


lemma congestion_only_merged:
  "merge_sources panel_2019_2020 congestion_only =
     Inr (merge_left [''country'', ''year''] ''_congestion'' panel_2019_2020 congestion_2019_2020)"
  by (simp add: merge_sources_def and_then_def merge_congestion_def merge_uitp_def
      merge_file_def merge_overpass_def congestion_only_def no_sources_def merge_on_def
      has_columns_def panel_2019_2020_def congestion_2019_2020_def)

lemma congestion_only_columns:
  "columns (merge_left [''country'', ''year''] ''_congestion'' panel_2019_2020 congestion_2019_2020) =
     [''country'', ''year'', ''congestion_level_pct'', ''data_source'']"
  by (simp add: merge_left_def Let_def suffixed_def panel_2019_2020_def congestion_2019_2020_def)

lemma congestion_only_unique: "sources_unique congestion_only"
  by (simp add: sources_unique_def congestion_only_def no_sources_def unique_or_absent_def
      unique_on_def congestion_2019_2020_def mk_row_def)

lemma panel_2019_2020_keys:
  "has_columns panel_2019_2020 [''country'', ''year'']"
  "map panel_key (rows panel_2019_2020) = [(Str ''A'', Num 2019), (Str ''A'', Num 2020)]"
  by (simp_all add: has_columns_def panel_2019_2020_def panel_key_def mk_row_def)

theorem final_panel_keys_unique_witness:
  "has_columns panel_2019_2020 [''country'', ''year''] \<and>
   distinct (map panel_key (rows panel_2019_2020)) \<and>
   sources_unique congestion_only \<and>
   merge_panel panel_2019_2020 congestion_only =
     Inr (finish_panel (merge_left [''country'', ''year''] ''_congestion'' panel_2019_2020
            congestion_2019_2020)) \<and>
   distinct (map panel_key (rows (finish_panel
     (merge_left [''country'', ''year''] ''_congestion'' panel_2019_2020 congestion_2019_2020))))"
proof -
  let ?df = "merge_left [''country'', ''year''] ''_congestion'' panel_2019_2020 congestion_2019_2020"
  have d: "distinct (map panel_key (rows panel_2019_2020))"
    by (simp add: panel_2019_2020_keys)
  have "has_columns ?df [''country'', ''year'']"
    by (simp add: has_columns_def congestion_only_columns)
  then have run: "merge_panel panel_2019_2020 congestion_only = Inr (finish_panel ?df)"
    by (simp add: merge_panel_def and_then_def congestion_only_merged)
  from final_panel_keys_unique [OF panel_2019_2020_keys(1) d congestion_only_unique run]
  have "distinct (map panel_key (rows (finish_panel ?df)))" by simp
  with panel_2019_2020_keys(1) d congestion_only_unique run show ?thesis by simp
qed

theorem transit_investment_zero_witness:
  "merge_sources panel_2019_2020 congestion_only =
     Inr (merge_left [''country'', ''year''] ''_congestion'' panel_2019_2020 congestion_2019_2020) \<and>
   ''transit_investment_gdp'' \<notin> set (columns
     (merge_left [''country'', ''year''] ''_congestion'' panel_2019_2020 congestion_2019_2020)) \<and>
   ''gdp_current_usd'' \<notin> set (columns
     (merge_left [''country'', ''year''] ''_congestion'' panel_2019_2020 congestion_2019_2020)) \<and>
   col_vals (finish_panel
     (merge_left [''country'', ''year''] ''_congestion'' panel_2019_2020 congestion_2019_2020))
     ''transit_investment_gdp'' = [Num 0, Num 0]"
proof -
  let ?df = "merge_left [''country'', ''year''] ''_congestion'' panel_2019_2020 congestion_2019_2020"
  have h: "has_columns ?df [''country'', ''year'']"
    by (simp add: has_columns_def congestion_only_columns)
  have a: "''transit_investment_gdp'' \<notin> set (columns ?df)"
    and g: "''gdp_current_usd'' \<notin> set (columns ?df)"
    by (simp_all add: congestion_only_columns)
  have "map (\<lambda>r. map r [''country'', ''year'']) (rows ?df) =
        map (\<lambda>r. map r [''country'', ''year'']) (rows panel_2019_2020)"
    using merge_sources_keys [OF congestion_only_merged congestion_only_unique
        panel_2019_2020_keys(1)] by simp
  then have "length (rows ?df) = length (rows panel_2019_2020)"
    by (rule map_eq_imp_length_eq)
  then have n: "length (rows ?df) = 2" by (simp add: panel_2019_2020_def)
  from transit_investment_zero [OF congestion_only_merged h, THEN conjunct2, THEN conjunct2] a g
  have "col_vals (finish_panel ?df) ''transit_investment_gdp'' =
        replicate (length (rows ?df)) (Num 0)" by simp
  with n have "col_vals (finish_panel ?df) ''transit_investment_gdp'' = [Num 0, Num 0]"
    by (simp add: numeral_2_eq_2)
  with congestion_only_merged a g show ?thesis by simp
qed

section \<open>Properties of the congestion proxy estimator\<close>


lemma keep_first_filter:
  "filter (\<lambda>r. key r = k) (keep_first key xs) = take 1 (filter (\<lambda>r. key r = k) xs)"
proof (induction key xs rule: keep_first.induct)
  case (1 key)
  then show ?case by simp
next
  case (2 key x xs)
  show ?case
  proof (cases "key x = k")
    case True
    have "filter (\<lambda>r. key r = k) (filter (\<lambda>y. key y \<noteq> key x) xs) = []"
      using True by (auto simp: filter_empty_conv)
    with 2 True show ?thesis by simp
  next
    case False
    have "filter (\<lambda>r. key r = k) (filter (\<lambda>y. key y \<noteq> key x) xs) =
          filter (\<lambda>r. key r = k) xs"
      using False by (auto intro: filter_cong)
    with 2 False show ?thesis by simp
  qed
qed

lemma sort_key_least_first:
  assumes "\<forall>e\<in>set es. f a < f e"
  shows "sort_key f (a # es) = a # sort_key f es"
proof -
  from assms have "\<forall>x\<in>set (sort_key f es). f a \<le> f x" by (simp add: less_imp_le)
  then show ?thesis by (simp add: insort_is_Cons)
qed

lemma filter_key_single:
  assumes "distinct (map key xs)" "x \<in> set xs"
  shows "filter (\<lambda>r. key r = key x) xs = [x]"
  using assms
proof (induction xs)
  case Nil
  then show ?case by simp
next
  case (Cons y ys)
  show ?case
  proof (cases "y = x")
    case True
    with Cons.prems(1) have "\<forall>r\<in>set ys. key r \<noteq> key x" by (auto simp: image_iff)
    then have "filter (\<lambda>r. key r = key x) ys = []" by (simp add: filter_empty_conv)
    with True show ?thesis by simp
  next
    case False
    with Cons.prems have x: "x \<in> set ys" by simp
    with Cons.prems(1) have "key y \<noteq> key x" by (auto simp: image_iff)
    with Cons.IH [OF _ x] Cons.prems(1) show ?thesis by simp
  qed
qed

lemma rows_assign_replicate:
  "rows (assign df c (replicate (length (rows df)) v)) = map (\<lambda>r. r(c := v)) (rows df)"
proof -
  have "map (\<lambda>(r, w). r(c := w)) (zip xs (replicate (length xs) v)) = map (\<lambda>r. r(c := v)) xs"
    for xs :: "row list"
    by (induction xs) auto
  then show ?thesis by (simp add: assign_def)
qed

lemma rows_assign_col_vals:
  "rows (assign df c (col_vals df c')) = map (\<lambda>r. r(c := r c')) (rows df)"
proof -
  have "map (\<lambda>(r, w). r(c := w)) (zip xs (map (\<lambda>r. r c') xs)) = map (\<lambda>r. r(c := r c')) xs"
    for xs :: "row list"
    by (induction xs) auto
  then show ?thesis by (simp add: assign_def col_vals_def)
qed

lemma rows_combined:
  "rows (combined tc est) =
     sort_key (\<lambda>r. map (\<lambda>c. sort_rank (r c)) [''country'', ''year''])
       (map (\<lambda>r. r(''data_source'' := r ''estimation_method''))
          (keep_first (\<lambda>r. map r [''country'', ''year''])
             (sort_key (\<lambda>r. map (\<lambda>c. sort_rank (r c)) [''country'', ''year'', ''estimation_method''])
                (map (\<lambda>r. r(''estimation_method'' := Str ''actual_tomtom'')) (rows tc) @
                 rows est))))"
  by (simp add: combined_def Let_def sort_values_def rows_assign_col_vals drop_duplicates_def
      concat_frames_def rows_assign_replicate)

lemma sort_key_short: "length xs \<le> 1 \<Longrightarrow> sort_key f xs = xs"
  by (cases xs) (auto simp: le_Suc_eq)

lemma combined_key:
  "filter (\<lambda>r. map r [''country'', ''year''] = k) (rows (combined tc est)) =
     map (\<lambda>r. r(''data_source'' := r ''estimation_method''))
       (take 1
          (sort_key (\<lambda>r. map (\<lambda>c. sort_rank (r c)) [''country'', ''year'', ''estimation_method''])
             (filter (\<lambda>r. map r [''country'', ''year''] = k)
                (map (\<lambda>r. r(''estimation_method'' := Str ''actual_tomtom'')) (rows tc) @
                 rows est))))"
proof -
  let ?K = "\<lambda>r::row. map r [''country'', ''year'']"
  let ?h = "\<lambda>r::row. r(''data_source'' := r ''estimation_method'')"
  let ?f3 = "\<lambda>r::row. map (\<lambda>c. sort_rank (r c)) [''country'', ''year'', ''estimation_method'']"
  let ?f2 = "\<lambda>r::row. map (\<lambda>c. sort_rank (r c)) [''country'', ''year'']"
  let ?AE = "map (\<lambda>r. r(''estimation_method'' := Str ''actual_tomtom'')) (rows tc) @ rows est"
  let ?kept = "keep_first ?K (sort_key ?f3 ?AE)"
  have Kh: "(\<lambda>r. ?K r = k) \<circ> ?h = (\<lambda>r. ?K r = k)" by (auto simp: fun_eq_iff)
  have "filter (\<lambda>r. ?K r = k) (rows (combined tc est)) =
        sort_key ?f2 (filter (\<lambda>r. ?K r = k) (map ?h ?kept))"
    unfolding rows_combined by (rule filter_sort)
  also have "filter (\<lambda>r. ?K r = k) (map ?h ?kept) = map ?h (filter (\<lambda>r. ?K r = k) ?kept)"
    unfolding filter_map Kh ..
  also have "filter (\<lambda>r. ?K r = k) ?kept = take 1 (filter (\<lambda>r. ?K r = k) (sort_key ?f3 ?AE))"
    by (rule keep_first_filter)
  also have "filter (\<lambda>r. ?K r = k) (sort_key ?f3 ?AE) = sort_key ?f3 (filter (\<lambda>r. ?K r = k) ?AE)"
    by (rule filter_sort)
  also have "sort_key ?f2 (map ?h (take 1 (sort_key ?f3 (filter (\<lambda>r. ?K r = k) ?AE)))) =
             map ?h (take 1 (sort_key ?f3 (filter (\<lambda>r. ?K r = k) ?AE)))"
    by (rule sort_key_short) simp
  finally show ?thesis .
qed


lemma combined_actual:
  assumes u: "unique_on [''country'', ''year''] tc"
    and a: "a \<in> set (rows tc)"
    and e: "\<forall>e\<in>set (rows est). \<exists>s. e ''estimation_method'' = Str s \<and> ''actual_tomtom'' < s"
  shows "filter (\<lambda>r. map r [''country'', ''year''] = map a [''country'', ''year''])
           (rows (combined tc est)) =
         [(a(''estimation_method'' := Str ''actual_tomtom''))(''data_source'' := Str ''actual_tomtom'')]"
proof -
  let ?K = "\<lambda>r::row. map r [''country'', ''year'']"
  let ?up = "\<lambda>r::row. r(''estimation_method'' := Str ''actual_tomtom'')"
  let ?f3 = "\<lambda>r::row. map (\<lambda>c. sort_rank (r c)) [''country'', ''year'', ''estimation_method'']"
  let ?es = "filter (\<lambda>r. ?K r = ?K a) (rows est)"
  have Kup: "(\<lambda>r. ?K r = ?K a) \<circ> ?up = (\<lambda>r. ?K r = ?K a)" by (auto simp: fun_eq_iff)
  have "filter (\<lambda>r. ?K r = ?K a) (rows tc) = [a]"
    using u a unfolding unique_on_def by (rule filter_key_single)
  then have A: "filter (\<lambda>r. ?K r = ?K a) (map ?up (rows tc)) = [?up a]"
    unfolding filter_map Kup by simp
  have less: "\<forall>x\<in>set ?es. ?f3 (?up a) < ?f3 x"
  proof
    fix x assume x: "x \<in> set ?es"
    then have k: "x ''country'' = a ''country''" "x ''year'' = a ''year''" by simp_all
    from x e obtain s where s: "x ''estimation_method'' = Str s" "''actual_tomtom'' < s" by auto
    then have "sort_rank (Str ''actual_tomtom'') < sort_rank (x ''estimation_method'')"
      by (simp add: sort_rank_def)
    with k show "?f3 (?up a) < ?f3 x" by simp
  qed
  have "filter (\<lambda>r. ?K r = ?K a) (map ?up (rows tc) @ rows est) = ?up a # ?es"
    by (simp only: filter_append A append_Cons append_Nil)
  then have "take 1 (sort_key ?f3 (filter (\<lambda>r. ?K r = ?K a) (map ?up (rows tc) @ rows est))) =
      take 1 (?up a # sort_key ?f3 ?es)"
    by (simp only: sort_key_least_first [OF less])
  then have "take 1 (sort_key ?f3 (filter (\<lambda>r. ?K r = ?K a) (map ?up (rows tc) @ rows est))) =
      [?up a]"
    by simp
  then show ?thesis unfolding combined_key by simp
qed

lemma combined_estimated:
  assumes n: "\<forall>a\<in>set (rows tc). map a [''country'', ''year''] \<noteq> k"
    and e0: "e0 \<in> set (rows est)" "map e0 [''country'', ''year''] = k"
  shows "\<exists>e\<in>set (rows est). map e [''country'', ''year''] = k \<and>
           filter (\<lambda>r. map r [''country'', ''year''] = k) (rows (combined tc est)) =
             [e(''data_source'' := e ''estimation_method'')]"
proof -
  let ?K = "\<lambda>r::row. map r [''country'', ''year'']"
  let ?up = "\<lambda>r::row. r(''estimation_method'' := Str ''actual_tomtom'')"
  let ?f3 = "\<lambda>r::row. map (\<lambda>c. sort_rank (r c)) [''country'', ''year'', ''estimation_method'']"
  let ?es = "filter (\<lambda>r. ?K r = k) (rows est)"
  have "filter (\<lambda>r. ?K r = k) (map ?up (rows tc)) = []"
    using n by (auto simp: filter_empty_conv)
  then have AE: "filter (\<lambda>r. ?K r = k) (map ?up (rows tc) @ rows est) = ?es"
    by (simp only: filter_append append_Nil)
  from e0 have "e0 \<in> set ?es" by simp
  then have "e0 \<in> set (sort_key ?f3 ?es)" by (simp only: set_sort)
  then have "sort_key ?f3 ?es \<noteq> []" by (metis list.set(1) empty_iff)
  then obtain e rest where s: "sort_key ?f3 ?es = e # rest" by (meson neq_Nil_conv)
  then have "e \<in> set (sort_key ?f3 ?es)" by (metis list.set_intros(1))
  then have "e \<in> set ?es" by (simp only: set_sort)
  then have e: "e \<in> set (rows est)" "?K e = k" by simp_all
  have "filter (\<lambda>r. ?K r = k) (rows (combined tc est)) = [e(''data_source'' := e ''estimation_method'')]"
    unfolding combined_key AE s by simp
  with e show ?thesis by blast
qed


lemma col_vals_select_columns:
  "col_vals (select_columns cols df) c =
     (if c \<in> set cols then col_vals df c else replicate (length (rows df)) Null)"
  by (simp add: col_vals_def select_columns_def comp_def map_replicate_const)

lemma col_vals_set_columns:
  "col_vals (set_columns names df) c =
     (case map_of (zip names (columns df)) c of
        Some old_name \<Rightarrow> col_vals df old_name
      | None \<Rightarrow> replicate (length (rows df)) Null)"
  by (simp add: col_vals_def set_columns_def comp_def map_replicate_const split: option.splits)

lemma select_columns_shape:
  "columns (select_columns cols df) = cols"
  "length (rows (select_columns cols df)) = length (rows df)"
  by (simp_all add: select_columns_def)

lemma estimated_data_cols:
  assumes "length congestion = length (rows wb_df)" "length travel_time = length (rows wb_df)"
  shows "col_vals (estimated_data wb_df congestion travel_time tag) ''country'' =
           col_vals wb_df ''country''"
    and "col_vals (estimated_data wb_df congestion travel_time tag) ''year'' =
           col_vals wb_df ''year''"
    and "col_vals (estimated_data wb_df congestion travel_time tag) ''congestion_level_pct'' =
           congestion"
    and "col_vals (estimated_data wb_df congestion travel_time tag) ''estimation_method'' =
           replicate (length (rows wb_df)) (Str tag)"
  using assms
  by (simp_all add: estimated_data_def col_vals_set_columns select_columns_shape
      col_vals_select_columns col_vals_assign length_rows_assign)




lemma col_vals_mem: "r \<in> set (rows df) \<Longrightarrow> r c \<in> set (col_vals df c)"
  by (simp add: col_vals_def)

lemma estimated_data_rows:
  assumes l: "length congestion = length (rows wb_df)" "length travel_time = length (rows wb_df)"
  shows "\<forall>e\<in>set (rows (estimated_data wb_df congestion travel_time tag)).
           e ''estimation_method'' = Str tag \<and> e ''congestion_level_pct'' \<in> set congestion"
    and "\<forall>w\<in>set (rows wb_df).
           \<exists>e\<in>set (rows (estimated_data wb_df congestion travel_time tag)).
             map e [''country'', ''year''] = map w [''country'', ''year'']"
proof -
  let ?E = "estimated_data wb_df congestion travel_time tag"
  note c = estimated_data_cols [OF l, of tag]
  show "\<forall>e\<in>set (rows ?E).
           e ''estimation_method'' = Str tag \<and> e ''congestion_level_pct'' \<in> set congestion"
  proof
    fix e assume e: "e \<in> set (rows ?E)"
    from col_vals_mem [OF e, of "''estimation_method''"] have "e ''estimation_method'' = Str tag"
      unfolding c(4) by simp
    moreover from col_vals_mem [OF e, of "''congestion_level_pct''"]
    have "e ''congestion_level_pct'' \<in> set congestion" unfolding c(3) .
    ultimately show "e ''estimation_method'' = Str tag \<and>
        e ''congestion_level_pct'' \<in> set congestion" by simp
  qed
  have len: "length (rows ?E) = length (rows wb_df)"
    using arg_cong [OF c(1), of length] by simp
  show "\<forall>w\<in>set (rows wb_df). \<exists>e\<in>set (rows ?E).
          map e [''country'', ''year''] = map w [''country'', ''year'']"
  proof
    fix w assume "w \<in> set (rows wb_df)"
    then obtain i where i: "i < length (rows wb_df)" "w = rows wb_df ! i"
      by (auto simp: in_set_conv_nth)
    let ?e = "rows ?E ! i"
    have "?e ''country'' = col_vals ?E ''country'' ! i" "?e ''year'' = col_vals ?E ''year'' ! i"
      using i len by (simp_all add: col_vals_def)
    then have "?e ''country'' = w ''country''" "?e ''year'' = w ''year''"
      unfolding c(1,2) using i by (simp_all add: col_vals_def)
    moreover have "?e \<in> set (rows ?E)" using i len by simp
    ultimately show "\<exists>e\<in>set (rows ?E). map e [''country'', ''year''] = map w [''country'', ''year'']"
      by auto
  qed
qed

lemma proxy_output:
  assumes "congestion_proxy predict noise wb_df tomtom_df = Inr out"
  shows "\<exists>est tag. out = combined (tomtom_country tomtom_df) est \<and>
           (tag = ''rule_based'' \<or> tag = ''ml_random_forest'') \<and>
           (\<forall>e\<in>set (rows est). e ''estimation_method'' = Str tag \<and>
              (\<exists>x. e ''congestion_level_pct'' = Num x)) \<and>
           (\<forall>w\<in>set (rows wb_df). \<exists>e\<in>set (rows est).
              map e [''country'', ''year''] = map w [''country'', ''year''])"
proof -
  let ?tc = "tomtom_country tomtom_df"
  from assms consider
    (rule) "out = combined ?tc (rule_based_estimates noise wb_df)"
  | (ml) predictions where "out = combined ?tc (ml_estimates predictions wb_df)"
      "length predictions = length (rows wb_df)"
    by (auto simp: congestion_proxy_def Let_def split: if_splits option.splits)
  then show ?thesis
  proof cases
    case rule
    let ?est = "map (\<lambda>i. estimate_congestion (columns wb_df) (rows wb_df ! i) (noise i))
                  [0..<length (rows wb_df)]"
    have r: "rule_based_estimates noise wb_df =
        estimated_data wb_df (map Num ?est) (map (\<lambda>e. Num (1 + e / 100)) ?est) ''rule_based''"
      by (simp add: rule_based_estimates_def Let_def)
    have l: "length (map Num ?est) = length (rows wb_df)"
      "length (map (\<lambda>e. Num (1 + e / 100)) ?est) = length (rows wb_df)" by simp_all
    note f = estimated_data_rows [OF l, of "''rule_based''"]
    have v: "\<forall>e\<in>set (rows (rule_based_estimates noise wb_df)).
            e ''estimation_method'' = Str ''rule_based'' \<and> (\<exists>x. e ''congestion_level_pct'' = Num x)"
    proof
      fix e assume "e \<in> set (rows (rule_based_estimates noise wb_df))"
      with f(1) have "e ''estimation_method'' = Str ''rule_based''"
        "e ''congestion_level_pct'' \<in> set (map Num ?est)" unfolding r by blast+
      then show "e ''estimation_method'' = Str ''rule_based'' \<and>
          (\<exists>x. e ''congestion_level_pct'' = Num x)" by auto
    qed
    have k: "\<forall>w\<in>set (rows wb_df). \<exists>e\<in>set (rows (rule_based_estimates noise wb_df)).
              map e [''country'', ''year''] = map w [''country'', ''year'']"
      unfolding r by (rule f(2))
    show ?thesis
      by (rule exI [of _ "rule_based_estimates noise wb_df"], rule exI [of _ "''rule_based''"])
        (use rule v k in blast)
  next
    case ml
    have l: "length (map (\<lambda>p. Num (min 80 (max 10 p))) predictions) = length (rows wb_df)"
      "length (map (\<lambda>p. Num (1 + p / 100)) predictions) = length (rows wb_df)"
      using ml(2) by simp_all
    note f = estimated_data_rows [OF l, of "''ml_random_forest''"]
    have v: "\<forall>e\<in>set (rows (ml_estimates predictions wb_df)).
            e ''estimation_method'' = Str ''ml_random_forest'' \<and>
            (\<exists>x. e ''congestion_level_pct'' = Num x)"
    proof
      fix e assume "e \<in> set (rows (ml_estimates predictions wb_df))"
      with f(1) have "e ''estimation_method'' = Str ''ml_random_forest''"
        "e ''congestion_level_pct'' \<in> set (map (\<lambda>p. Num (min 80 (max 10 p))) predictions)"
        unfolding ml_estimates_def by blast+
      then show "e ''estimation_method'' = Str ''ml_random_forest'' \<and>
          (\<exists>x. e ''congestion_level_pct'' = Num x)" by auto
    qed
    have k: "\<forall>w\<in>set (rows wb_df). \<exists>e\<in>set (rows (ml_estimates predictions wb_df)).
              map e [''country'', ''year''] = map w [''country'', ''year'']"
      unfolding ml_estimates_def by (rule f(2))
    show ?thesis
      by (rule exI [of _ "ml_estimates predictions wb_df"], rule exI [of _ "''ml_random_forest''"])
        (use ml(1) v k in blast)
  qed
qed



lemma tc_measured:
  "map (\<lambda>r. (panel_key r, r ''congestion_level_pct'')) (rows (tomtom_country tomtom_measured)) =
     [((Str ''A'', Num 2020), Num 40)]"
  by (simp add: tomtom_country_def groupby_mean_def groupby_keys_def tomtom_measured_def
      mk_row_def panel_key_def series_mean_def group_rows_def nums_def mean_def)

lemma tc_unmeasured:
  "map (\<lambda>r. (panel_key r, r ''congestion_level_pct'')) (rows (tomtom_country tomtom_unmeasured)) =
     [((Str ''A'', Num 2020), Null)]"
  by (simp add: tomtom_country_def groupby_mean_def groupby_keys_def tomtom_unmeasured_def
      mk_row_def panel_key_def series_mean_def group_rows_def nums_def mean_def)

lemma length_groupby_mean: "length (rows (groupby_mean by cols df)) \<le> length (rows df)"
proof -
  have "length (remdups (filter (\<lambda>k. Null \<notin> set k) (map (\<lambda>r. map r by) (rows df)))) \<le>
        length (filter (\<lambda>k. Null \<notin> set k) (map (\<lambda>r. map r by) (rows df)))"
    by (rule length_remdups_leq)
  also have "\<dots> \<le> length (map (\<lambda>r. map r by) (rows df))" by (rule length_filter_le)
  finally show ?thesis by (simp add: groupby_mean_def groupby_keys_def)
qed

lemma length_merge_inner:
  "length (rows (merge_inner on left right)) \<le> length (rows left) * length (rows right)"
proof -
  have m: "length (matches on l right) \<le> length (rows right)" for l
    by (simp add: matches_def)
  have "length (concat (map (\<lambda>l. map (g l) (matches on l right)) ls)) \<le>
        length ls * length (rows right)" for ls and g :: "row \<Rightarrow> row \<Rightarrow> row"
  proof (induction ls)
    case Nil
    then show ?case by simp
  next
    case (Cons l ls)
    with m [of l] show ?case by simp
  qed
  then show ?thesis by (simp add: merge_inner_def Let_def)
qed

lemma proxy_rule_based:
  assumes "has_columns tomtom_df
            [''country'', ''year'', ''congestion_level_pct'', ''travel_time_index'']"
    "has_columns wb_df [''country'', ''year'']"
    "has_columns wb_df [''gdp_per_capita'', ''urban_population_pct'', ''population'']"
    "length (rows tomtom_df) * length (rows wb_df) < 20"
  shows "congestion_proxy predict noise wb_df tomtom_df =
           Inr (combined (tomtom_country tomtom_df) (rule_based_estimates noise wb_df))"
proof -
  have "length (rows (merge_inner [''country'', ''year''] (tomtom_country tomtom_df) wb_df)) \<le>
        length (rows (tomtom_country tomtom_df)) * length (rows wb_df)"
    by (rule length_merge_inner)
  also have "\<dots> \<le> length (rows tomtom_df) * length (rows wb_df)"
    unfolding tomtom_country_def by (intro mult_right_mono length_groupby_mean) simp
  finally have "length (rows (merge_inner [''country'', ''year''] (tomtom_country tomtom_df) wb_df)) < 20"
    using assms(4) by simp
  with assms(1-3) show ?thesis by (simp add: congestion_proxy_def Let_def)
qed


lemma panel_key_eq: "(panel_key r = panel_key a) = (map r [''country'', ''year''] = map a [''country'', ''year''])"
  by (simp add: panel_key_def)

lemma method_order: "''actual_tomtom'' < ''rule_based''" "''actual_tomtom'' < ''ml_random_forest''"
  by simp_all

text \<open>
  C1. Whenever the estimator writes its output, every (country, year) key of the
  aggregated actual-measurement table has exactly one row in the comprehensive dataset:
  the actual row, with the measured congestion level and travel time index and with
  \<open>data_source = 'actual_tomtom'\<close>. This holds in the rule-based and in the ML branch,
  whether or not the estimated table has the key, so an estimate for a measured key never
  reaches the output.
\<close>

theorem actual_takes_precedence:
  assumes run: "congestion_proxy predict noise wb_df tomtom_df = Inr out"
    and a: "a \<in> set (rows (tomtom_country tomtom_df))"
  shows "\<exists>r. filter (\<lambda>r. panel_key r = panel_key a) (rows out) = [r] \<and>
             r ''congestion_level_pct'' = a ''congestion_level_pct'' \<and>
             r ''travel_time_index'' = a ''travel_time_index'' \<and>
             r ''data_source'' = Str ''actual_tomtom''"
proof -
  let ?tc = "tomtom_country tomtom_df"
  from proxy_output [OF run] obtain est tag where
    out: "out = combined ?tc est" and
    m: "tag = ''rule_based'' \<or> tag = ''ml_random_forest''" and
    e: "\<forall>e\<in>set (rows est). e ''estimation_method'' = Str tag \<and>
              (\<exists>x. e ''congestion_level_pct'' = Num x)"
    by blast
  from m have "''actual_tomtom'' < tag" using method_order by blast
  with e have ok: "\<forall>e\<in>set (rows est). \<exists>s. e ''estimation_method'' = Str s \<and> ''actual_tomtom'' < s"
    by blast
  have u: "unique_on [''country'', ''year''] ?tc"
    unfolding tomtom_country_def by (rule unique_groupby_mean)
  let ?r = "(a(''estimation_method'' := Str ''actual_tomtom''))(''data_source'' := Str ''actual_tomtom'')"
  have "filter (\<lambda>r. panel_key r = panel_key a) (rows out) = [?r]"
    unfolding out panel_key_eq by (rule combined_actual [OF u a ok])
  moreover have "?r ''congestion_level_pct'' = a ''congestion_level_pct''"
    "?r ''travel_time_index'' = a ''travel_time_index''"
    "?r ''data_source'' = Str ''actual_tomtom''" by simp_all
  ultimately show ?thesis by blast
qed

text \<open>
  C2, amended. Whenever the estimator writes its output, in either branch, every
  (country, year) key of the World Bank table has exactly one row in the comprehensive
  dataset, tagged \<open>actual_tomtom\<close>, \<open>ml_random_forest\<close> or \<open>rule_based\<close>; its congestion
  level is present provided the actual measurement of the key, if there is one, has a
  congestion value.
\<close>

theorem coverage_of_base_panel:
  assumes run: "congestion_proxy predict noise wb_df tomtom_df = Inr out"
    and w: "w \<in> set (rows wb_df)"
  shows "\<exists>r. filter (\<lambda>r. panel_key r = panel_key w) (rows out) = [r] \<and>
             (r ''data_source'' = Str ''actual_tomtom'' \<or>
              r ''data_source'' = Str ''ml_random_forest'' \<or>
              r ''data_source'' = Str ''rule_based'') \<and>
             ((\<forall>a\<in>set (rows (tomtom_country tomtom_df)).
                 panel_key a = panel_key w \<longrightarrow> a ''congestion_level_pct'' \<noteq> Null) \<longrightarrow>
              r ''congestion_level_pct'' \<noteq> Null)"
proof -
  let ?tc = "tomtom_country tomtom_df"
  from proxy_output [OF run] obtain est tag where
    out: "out = combined ?tc est" and
    m: "tag = ''rule_based'' \<or> tag = ''ml_random_forest''" and
    e: "\<forall>e\<in>set (rows est). e ''estimation_method'' = Str tag \<and>
              (\<exists>x. e ''congestion_level_pct'' = Num x)" and
    k: "\<forall>w\<in>set (rows wb_df). \<exists>e\<in>set (rows est).
              map e [''country'', ''year''] = map w [''country'', ''year'']"
    by blast
  show ?thesis
  proof (cases "\<exists>a\<in>set (rows ?tc). panel_key a = panel_key w")
    case True
    then obtain a where a: "a \<in> set (rows ?tc)" "panel_key a = panel_key w" by blast
    from m have "''actual_tomtom'' < tag" using method_order by blast
    with e have ok: "\<forall>e\<in>set (rows est). \<exists>s. e ''estimation_method'' = Str s \<and> ''actual_tomtom'' < s"
      by blast
    have u: "unique_on [''country'', ''year''] ?tc"
      unfolding tomtom_country_def by (rule unique_groupby_mean)
    let ?r = "(a(''estimation_method'' := Str ''actual_tomtom''))(''data_source'' := Str ''actual_tomtom'')"
    have "filter (\<lambda>r. panel_key r = panel_key a) (rows out) = [?r]"
      unfolding out panel_key_eq by (rule combined_actual [OF u a(1) ok])
    then have f: "filter (\<lambda>r. panel_key r = panel_key w) (rows out) = [?r]"
      unfolding a(2) .
    have "?r ''congestion_level_pct'' = a ''congestion_level_pct''"
      "?r ''data_source'' = Str ''actual_tomtom''" by simp_all
    with f a show ?thesis by metis
  next
    case False
    then have n: "\<forall>a\<in>set (rows ?tc). map a [''country'', ''year''] \<noteq> map w [''country'', ''year'']"
      unfolding panel_key_eq by blast
    from k w obtain e0 where e0: "e0 \<in> set (rows est)"
      "map e0 [''country'', ''year''] = map w [''country'', ''year'']" by blast
    from combined_estimated [OF n e0] obtain e' where e': "e' \<in> set (rows est)"
      and f: "filter (\<lambda>r. map r [''country'', ''year''] = map w [''country'', ''year''])
                (rows (combined ?tc est)) = [e'(''data_source'' := e' ''estimation_method'')]"
      by blast
    let ?r = "e'(''data_source'' := e' ''estimation_method'')"
    from f have f': "filter (\<lambda>r. panel_key r = panel_key w) (rows out) = [?r]"
      unfolding out panel_key_eq .
    from e e' obtain x where "e' ''estimation_method'' = Str tag"
      "e' ''congestion_level_pct'' = Num x" by blast
    then have "?r ''data_source'' = Str tag" "?r ''congestion_level_pct'' \<noteq> Null" by simp_all
    with m f' show ?thesis by blast
  qed
qed


lemma example_columns:
  "has_columns tomtom_measured [''country'', ''year'', ''congestion_level_pct'', ''travel_time_index'']"
  "has_columns tomtom_unmeasured [''country'', ''year'', ''congestion_level_pct'', ''travel_time_index'']"
  "has_columns tomtom_elsewhere [''country'', ''year'', ''congestion_level_pct'', ''travel_time_index'']"
  "has_columns wb_one_row [''country'', ''year'']"
  "has_columns wb_one_row [''gdp_per_capita'', ''urban_population_pct'', ''population'']"
  "length (rows tomtom_measured) * length (rows wb_one_row) < 20"
  "length (rows tomtom_unmeasured) * length (rows wb_one_row) < 20"
  "length (rows tomtom_elsewhere) * length (rows wb_one_row) < 20"
  by (simp_all add: has_columns_def tomtom_measured_def tomtom_unmeasured_def
      tomtom_elsewhere_def wb_one_row_def)

lemma wb_one_row_key: "map panel_key (rows wb_one_row) = [(Str ''A'', Num 2020)]"
  by (simp add: wb_one_row_def panel_key_def mk_row_def)

lemma map_eq_singleton: "map f xs = [y] \<Longrightarrow> \<exists>x. xs = [x] \<and> f x = y"
  by (cases xs) auto

theorem actual_takes_precedence_witness:
  "congestion_proxy (\<lambda>m d. None) (\<lambda>i. 0) wb_one_row tomtom_measured =
     Inr (combined (tomtom_country tomtom_measured) (rule_based_estimates (\<lambda>i. 0) wb_one_row)) \<and>
   map (\<lambda>r. (panel_key r, r ''congestion_level_pct'')) (rows (tomtom_country tomtom_measured)) =
     [((Str ''A'', Num 2020), Num 40)] \<and>
   map (\<lambda>r. (r ''congestion_level_pct'', r ''data_source''))
     (filter (\<lambda>r. panel_key r = (Str ''A'', Num 2020))
        (rows (combined (tomtom_country tomtom_measured)
                 (rule_based_estimates (\<lambda>i. 0) wb_one_row)))) =
     [(Num 40, Str ''actual_tomtom'')]"
proof -
  let ?out = "combined (tomtom_country tomtom_measured) (rule_based_estimates (\<lambda>i. 0) wb_one_row)"
  have run: "congestion_proxy (\<lambda>m d. None) (\<lambda>i. 0) wb_one_row tomtom_measured = Inr ?out"
    by (rule proxy_rule_based [OF example_columns(1,4,5,6)])
  from map_eq_singleton [OF tc_measured] obtain a where
    a: "rows (tomtom_country tomtom_measured) = [a]"
    "panel_key a = (Str ''A'', Num 2020)" "a ''congestion_level_pct'' = Num 40" by auto
  then have "a \<in> set (rows (tomtom_country tomtom_measured))" by simp
  from actual_takes_precedence [OF run this] obtain r where
    "filter (\<lambda>r. panel_key r = panel_key a) (rows ?out) = [r]"
    "r ''congestion_level_pct'' = a ''congestion_level_pct''"
    "r ''data_source'' = Str ''actual_tomtom''" by blast
  then have "map (\<lambda>r. (r ''congestion_level_pct'', r ''data_source''))
     (filter (\<lambda>r. panel_key r = (Str ''A'', Num 2020)) (rows ?out)) =
     [(Num 40, Str ''actual_tomtom'')]"
    unfolding a(2) by (simp add: a(3))
  with run tc_measured show ?thesis by simp
qed

theorem coverage_of_base_panel_witness:
  "congestion_proxy (\<lambda>m d. None) (\<lambda>i. 0) wb_one_row tomtom_measured =
     Inr (combined (tomtom_country tomtom_measured) (rule_based_estimates (\<lambda>i. 0) wb_one_row)) \<and>
   map panel_key (rows wb_one_row) = [(Str ''A'', Num 2020)] \<and>
   map (\<lambda>r. (panel_key r, r ''congestion_level_pct'')) (rows (tomtom_country tomtom_measured)) =
     [((Str ''A'', Num 2020), Num 40)] \<and>
   length (filter (\<lambda>r. panel_key r = (Str ''A'', Num 2020))
        (rows (combined (tomtom_country tomtom_measured)
                 (rule_based_estimates (\<lambda>i. 0) wb_one_row)))) = 1 \<and>
   Null \<notin> set (map (\<lambda>r. r ''congestion_level_pct'')
     (filter (\<lambda>r. panel_key r = (Str ''A'', Num 2020))
        (rows (combined (tomtom_country tomtom_measured)
                 (rule_based_estimates (\<lambda>i. 0) wb_one_row)))))"
proof -
  let ?out = "combined (tomtom_country tomtom_measured) (rule_based_estimates (\<lambda>i. 0) wb_one_row)"
  have run: "congestion_proxy (\<lambda>m d. None) (\<lambda>i. 0) wb_one_row tomtom_measured = Inr ?out"
    by (rule proxy_rule_based [OF example_columns(1,4,5,6)])
  from map_eq_singleton [OF wb_one_row_key] obtain w where
    w: "rows wb_one_row = [w]" "panel_key w = (Str ''A'', Num 2020)" by auto
  then have win: "w \<in> set (rows wb_one_row)" by simp
  from map_eq_singleton [OF tc_measured] obtain a where
    a: "rows (tomtom_country tomtom_measured) = [a]" "a ''congestion_level_pct'' = Num 40" by auto
  then have present: "\<forall>a\<in>set (rows (tomtom_country tomtom_measured)).
      panel_key a = panel_key w \<longrightarrow> a ''congestion_level_pct'' \<noteq> Null" by simp
  from coverage_of_base_panel [OF run win] present obtain r where
    "filter (\<lambda>r. panel_key r = panel_key w) (rows ?out) = [r]"
    "r ''congestion_level_pct'' \<noteq> Null" by blast
  then have "length (filter (\<lambda>r. panel_key r = (Str ''A'', Num 2020)) (rows ?out)) = 1"
    "Null \<notin> set (map (\<lambda>r. r ''congestion_level_pct'')
       (filter (\<lambda>r. panel_key r = (Str ''A'', Num 2020)) (rows ?out)))"
    unfolding w(2) by auto
  with run wb_one_row_key tc_measured show ?thesis by simp
qed

text \<open>
  C2 as stated fails. TomTom lists a city for (A, 2020) without a congestion value; the
  mean of the group is missing, fewer than 20 rows match and the rule-based branch runs;
  the actual row wins over the estimate, and the output row of (A, 2020) has no
  congestion level.
\<close>

theorem missing_actual_value_kept:
  "congestion_proxy (\<lambda>m d. None) (\<lambda>i. 0) wb_one_row tomtom_unmeasured =
     Inr (combined (tomtom_country tomtom_unmeasured) (rule_based_estimates (\<lambda>i. 0) wb_one_row)) \<and>
   map panel_key (rows wb_one_row) = [(Str ''A'', Num 2020)] \<and>
   map (\<lambda>r. (r ''congestion_level_pct'', r ''data_source''))
     (filter (\<lambda>r. panel_key r = (Str ''A'', Num 2020))
        (rows (combined (tomtom_country tomtom_unmeasured)
                 (rule_based_estimates (\<lambda>i. 0) wb_one_row)))) =
     [(Null, Str ''actual_tomtom'')]"
proof -
  let ?tc = "tomtom_country tomtom_unmeasured"
  let ?est = "rule_based_estimates (\<lambda>i. 0) wb_one_row"
  have run: "congestion_proxy (\<lambda>m d. None) (\<lambda>i. 0) wb_one_row tomtom_unmeasured =
      Inr (combined ?tc ?est)"
    by (rule proxy_rule_based [OF example_columns(2,4,5,7)])
  from proxy_output [OF run] obtain est tag where
    out: "combined ?tc ?est = combined ?tc est" and
    m: "tag = ''rule_based'' \<or> tag = ''ml_random_forest''" and
    e: "\<forall>e\<in>set (rows est). e ''estimation_method'' = Str tag \<and>
              (\<exists>x. e ''congestion_level_pct'' = Num x)"
    by blast
  from m have "''actual_tomtom'' < tag" using method_order by blast
  with e have ok: "\<forall>e\<in>set (rows est). \<exists>s. e ''estimation_method'' = Str s \<and> ''actual_tomtom'' < s"
    by blast
  have u: "unique_on [''country'', ''year''] ?tc"
    unfolding tomtom_country_def by (rule unique_groupby_mean)
  from map_eq_singleton [OF tc_unmeasured] obtain a where
    a: "rows ?tc = [a]" "panel_key a = (Str ''A'', Num 2020)" "a ''congestion_level_pct'' = Null"
    by auto
  then have ain: "a \<in> set (rows ?tc)" by simp
  have "filter (\<lambda>r. panel_key r = panel_key a) (rows (combined ?tc est)) =
      [(a(''estimation_method'' := Str ''actual_tomtom''))(''data_source'' := Str ''actual_tomtom'')]"
    unfolding panel_key_eq by (rule combined_actual [OF u ain ok])
  then have "map (\<lambda>r. (r ''congestion_level_pct'', r ''data_source''))
     (filter (\<lambda>r. panel_key r = (Str ''A'', Num 2020)) (rows (combined ?tc ?est))) =
     [(Null, Str ''actual_tomtom'')]"
    unfolding out a(2) by (simp add: a(3))
  with run wb_one_row_key show ?thesis by simp
qed


lemma rule_based_one_row:
  "col_vals (rule_based_estimates (\<lambda>i. z) wb_one_row) ''congestion_level_pct'' =
     [Num (estimate_congestion (columns wb_one_row) (rows wb_one_row ! 0) z)]"
proof -
  let ?est = "map (\<lambda>i. estimate_congestion (columns wb_one_row) (rows wb_one_row ! i) z)
                [0..<length (rows wb_one_row)]"
  have l: "length (map Num ?est) = length (rows wb_one_row)"
    "length (map (\<lambda>e. Num (1 + e / 100)) ?est) = length (rows wb_one_row)" by simp_all
  have "col_vals (rule_based_estimates (\<lambda>i. z) wb_one_row) ''congestion_level_pct'' = map Num ?est"
    unfolding rule_based_estimates_def Let_def by (rule estimated_data_cols(3) [OF l])
  moreover have "length (rows wb_one_row) = 1" by (simp add: wb_one_row_def)
  ultimately show ?thesis by simp
qed

lemma estimate_one_row:
  "estimate_congestion (columns wb_one_row) (rows wb_one_row ! 0) 0 = 89 / 2"
  "estimate_congestion (columns wb_one_row) (rows wb_one_row ! 0) 1 = 91 / 2"
  by (simp_all add: estimate_congestion_def wb_one_row_def mk_row_def gdp_effect_def
      urban_effect_def road_effect_def pop_effect_def regional_effect_def in_list_def
      asia_high_congestion_def developed_good_transit_def car_dependent_def
      latam_megacities_def Let_def)

lemma tc_elsewhere:
  "map panel_key (rows (tomtom_country tomtom_elsewhere)) = [(Str ''B'', Num 2019)]"
  by (simp add: tomtom_country_def groupby_mean_def groupby_keys_def tomtom_elsewhere_def
      mk_row_def panel_key_def)

lemma rule_based_keys:
  "\<forall>w\<in>set (rows wb_df). \<exists>e\<in>set (rows (rule_based_estimates noise wb_df)).
     map e [''country'', ''year''] = map w [''country'', ''year'']"
  unfolding rule_based_estimates_def Let_def by (rule estimated_data_rows(2)) simp_all

lemma estimate_kept:
  "map (\<lambda>r. r ''congestion_level_pct'')
     (filter (\<lambda>r. panel_key r = (Str ''A'', Num 2020))
        (rows (combined (tomtom_country tomtom_elsewhere)
                 (rule_based_estimates (\<lambda>i. z) wb_one_row)))) =
     [Num (estimate_congestion (columns wb_one_row) (rows wb_one_row ! 0) z)]"
proof -
  let ?tc = "tomtom_country tomtom_elsewhere"
  let ?est = "rule_based_estimates (\<lambda>i. z) wb_one_row"
  from map_eq_singleton [OF wb_one_row_key] obtain w where
    w: "rows wb_one_row = [w]" "panel_key w = (Str ''A'', Num 2020)" by auto
  from map_eq_singleton [OF tc_elsewhere] obtain a where
    a: "rows ?tc = [a]" "panel_key a = (Str ''B'', Num 2019)" by auto
  have n: "\<forall>a\<in>set (rows ?tc). map a [''country'', ''year''] \<noteq> map w [''country'', ''year'']"
  proof -
    have "panel_key a \<noteq> panel_key w" unfolding a(2) w(2) by simp
    then have "map a [''country'', ''year''] \<noteq> map w [''country'', ''year'']"
      unfolding panel_key_eq .
    then show ?thesis unfolding a(1) by simp
  qed
  from rule_based_keys [of wb_one_row "\<lambda>i. z"] w(1) obtain e0 where
    e0: "e0 \<in> set (rows ?est)" "map e0 [''country'', ''year''] = map w [''country'', ''year'']"
    by auto
  from combined_estimated [OF n e0] obtain e where e: "e \<in> set (rows ?est)"
    and f: "filter (\<lambda>r. map r [''country'', ''year''] = map w [''country'', ''year''])
              (rows (combined ?tc ?est)) = [e(''data_source'' := e ''estimation_method'')]"
    by blast
  from col_vals_mem [OF e, of "''congestion_level_pct''"]
  have v: "e ''congestion_level_pct'' =
      Num (estimate_congestion (columns wb_one_row) (rows wb_one_row ! 0) z)"
    unfolding rule_based_one_row by simp
  from f have "filter (\<lambda>r. panel_key r = (Str ''A'', Num 2020)) (rows (combined ?tc ?est)) =
      [e(''data_source'' := e ''estimation_method'')]"
    unfolding panel_key_eq [symmetric] w(2) .
  then show ?thesis by (simp add: v)
qed


text \<open>
  C9. The rule-based branch adds a draw of NumPy's global generator to every estimate and
  the script never seeds that generator. With the same two input tables, a run whose draw
  is 0 writes 44.5 for (A, 2020) and a run whose draw is 1 writes 45.5.
\<close>

theorem rule_based_depends_on_noise:
  "congestion_proxy (\<lambda>m d. None) (\<lambda>i. 0) wb_one_row tomtom_elsewhere =
     Inr (combined (tomtom_country tomtom_elsewhere) (rule_based_estimates (\<lambda>i. 0) wb_one_row)) \<and>
   congestion_proxy (\<lambda>m d. None) (\<lambda>i. 1) wb_one_row tomtom_elsewhere =
     Inr (combined (tomtom_country tomtom_elsewhere) (rule_based_estimates (\<lambda>i. 1) wb_one_row)) \<and>
   map (\<lambda>r. r ''congestion_level_pct'')
     (filter (\<lambda>r. panel_key r = (Str ''A'', Num 2020))
        (rows (combined (tomtom_country tomtom_elsewhere)
                 (rule_based_estimates (\<lambda>i. 0) wb_one_row)))) = [Num (89 / 2)] \<and>
   map (\<lambda>r. r ''congestion_level_pct'')
     (filter (\<lambda>r. panel_key r = (Str ''A'', Num 2020))
        (rows (combined (tomtom_country tomtom_elsewhere)
                 (rule_based_estimates (\<lambda>i. 1) wb_one_row)))) = [Num (91 / 2)]"
  using proxy_rule_based [OF example_columns(3,4,5,8)] estimate_kept [of 0] estimate_kept [of 1]
  by (simp add: estimate_one_row)

end
